theory Spec2Isabelle
  imports Complex_Main "HOL-Library.Sublist"
begin

section \<open>Strings as the extension sees them\<close>

text \<open>
  JavaScript strings are modelled as \<open>string\<close>: a list of code units, restricted
  to the code units below 256 that \<open>char\<close> holds.  \<open>String.prototype.trim\<close> removes the
  white space and line terminator code units from both ends; below 256 these are
  tab, line feed, vertical tab, form feed, carriage return, space and no-break space.
\<close>

definition is_ws :: "char \<Rightarrow> bool" where
  "is_ws c = (c = CHR 0x09 \<or> c = CHR 0x0A \<or> c = CHR 0x0B \<or> c = CHR 0x0C
              \<or> c = CHR 0x0D \<or> c = CHR 0x20 \<or> c = CHR 0xA0)"

definition trim :: "string \<Rightarrow> string" where
  "trim s = rev (dropWhile is_ws (rev (dropWhile is_ws s)))"

definition is_digit :: "char \<Rightarrow> bool" where
  "is_digit c = (c \<in> set ''0123456789'')"

definition startsWith :: "string \<Rightarrow> string \<Rightarrow> bool" where
  "startsWith s p = (take (length p) s = p)"

text \<open>\<open>s.includes(sub)\<close>: \<open>sub\<close> occurs somewhere in \<open>s\<close>.\<close>

fun str_includes :: "string \<Rightarrow> string \<Rightarrow> bool" where
  "str_includes [] sub = (sub = [])"
| "str_includes (c # cs) sub = (startsWith (c # cs) sub \<or> str_includes cs sub)"

text \<open>
  \<open>toLowerCase\<close> and \<open>toUpperCase\<close> on one code unit below 256: the ASCII letters and
  the Latin-1 letters whose counterpart is below 256 as well.
\<close>

definition upper_letters :: "char list" where
  "upper_letters = ''ABCDEFGHIJKLMNOPQRSTUVWXYZ'' @
     [
      CHR 0xC0, CHR 0xC1, CHR 0xC2, CHR 0xC3, CHR 0xC4, CHR 0xC5, CHR 0xC6, CHR 0xC7,
      CHR 0xC8, CHR 0xC9, CHR 0xCA, CHR 0xCB, CHR 0xCC, CHR 0xCD, CHR 0xCE, CHR 0xCF,
      CHR 0xD0, CHR 0xD1, CHR 0xD2, CHR 0xD3, CHR 0xD4, CHR 0xD5, CHR 0xD6, CHR 0xD8,
      CHR 0xD9, CHR 0xDA, CHR 0xDB, CHR 0xDC, CHR 0xDD, CHR 0xDE]"

definition lower_letters :: "char list" where
  "lower_letters = ''abcdefghijklmnopqrstuvwxyz'' @
     [
      CHR 0xE0, CHR 0xE1, CHR 0xE2, CHR 0xE3, CHR 0xE4, CHR 0xE5, CHR 0xE6, CHR 0xE7,
      CHR 0xE8, CHR 0xE9, CHR 0xEA, CHR 0xEB, CHR 0xEC, CHR 0xED, CHR 0xEE, CHR 0xEF,
      CHR 0xF0, CHR 0xF1, CHR 0xF2, CHR 0xF3, CHR 0xF4, CHR 0xF5, CHR 0xF6, CHR 0xF8,
      CHR 0xF9, CHR 0xFA, CHR 0xFB, CHR 0xFC, CHR 0xFD, CHR 0xFE]"

definition lower_char :: "char \<Rightarrow> char" where
  "lower_char c = (case map_of (zip upper_letters lower_letters) c of None \<Rightarrow> c | Some l \<Rightarrow> l)"

definition upper_char :: "char \<Rightarrow> char" where
  "upper_char c = (case map_of (zip lower_letters upper_letters) c of None \<Rightarrow> c | Some u \<Rightarrow> u)"

definition toLowerCase :: "string \<Rightarrow> string" where
  "toLowerCase s = map lower_char s"

text \<open>\<open>xs.join(sep)\<close>.\<close>

fun join :: "string \<Rightarrow> string list \<Rightarrow> string" where
  "join sep [] = []"
| "join sep [x] = x"
| "join sep (x # y # ys) = x @ sep @ join sep (y # ys)"

text \<open>\<open>s.padStart(2, '0')\<close>.\<close>

definition padStart2 :: "string \<Rightarrow> string" where
  "padStart2 s = replicate (2 - length s) CHR ''0'' @ s"

section \<open>Transaction records\<close>

text \<open>
  A transaction is a JavaScript object literal whose properties are strings: an
  association list in property insertion order.  \<open>fld t k\<close> is \<open>t[k]\<close>, with \<open>None\<close>
  for \<open>undefined\<close>.
\<close>

type_synonym transaction = "(string \<times> string) list"

definition fld :: "transaction \<Rightarrow> string \<Rightarrow> string option" where
  "fld t k = map_of t k"

text \<open>\<open>v || ''\<close> on a property that is a string or \<open>undefined\<close>.\<close>

definition text_of :: "string option \<Rightarrow> string" where
  "text_of v = (case v of None \<Rightarrow> [] | Some s \<Rightarrow> s)"

section \<open>utils.js: isValidTransaction\<close>

text \<open>
  \<open>hasDescription = transaction.description && transaction.description.trim().length > 2\<close>,
  \<open>hasAmount = transaction.amount && transaction.amount.trim().length > 0\<close>; the
  function returns \<open>hasDescription || hasAmount\<close>, read here by its truthiness.  A
  missing (\<open>null\<close>) transaction is rejected first.  \<open>hasDate\<close> only feeds a log line.
\<close>

definition hasDescription :: "transaction \<Rightarrow> bool" where
  "hasDescription t =
     (case fld t ''description'' of
        None \<Rightarrow> False
      | Some d \<Rightarrow> d \<noteq> [] \<and> length (trim d) > 2)"

definition hasAmount :: "transaction \<Rightarrow> bool" where
  "hasAmount t =
     (case fld t ''amount'' of
        None \<Rightarrow> False
      | Some a \<Rightarrow> a \<noteq> [] \<and> length (trim a) > 0)"

definition isValidTransaction :: "transaction option \<Rightarrow> bool" where
  "isValidTransaction tx =
     (case tx of
        None \<Rightarrow> False
      | Some t \<Rightarrow> hasDescription t \<or> hasAmount t)"

section \<open>csvExporter.js: convertToCSV\<close>

abbreviation dquote :: char where "dquote \<equiv> CHR 0x22"
abbreviation newline :: char where "newline \<equiv> CHR 0x0A"
abbreviation comma :: char where "comma \<equiv> CHR '',''"

definition orderedHeaders :: "string list" where
  "orderedHeaders =
     [''date'', ''accountType'', ''description'', ''vendor'', ''amount'', ''balance'',
      ''reference'']"

text \<open>\<open>transactions.some(t => t[header] && t[header] !== '')\<close>\<close>

definition has_data :: "transaction list \<Rightarrow> string \<Rightarrow> bool" where
  "has_data transactions header =
     list_ex (\<lambda>t. case fld t header of None \<Rightarrow> False | Some v \<Rightarrow> v \<noteq> [])
       transactions"

definition csv_columns :: "transaction list \<Rightarrow> string list" where
  "csv_columns transactions = filter (has_data transactions) orderedHeaders"

text \<open>
  The \<open>switch\<close> that labels a header.  Its \<open>default\<close>, which capitalises the first letter, is
  never reached from \<open>convertToCSV\<close>: every header comes from \<open>orderedHeaders\<close>.
\<close>

definition header_label :: "string \<Rightarrow> string" where
  "header_label h =
     (if h = ''date'' then ''Date''
      else if h = ''accountType'' then ''Account Type''
      else if h = ''description'' then ''Description''
      else if h = ''vendor'' then ''Vendor/Payee''
      else if h = ''amount'' then ''Amount''
      else if h = ''balance'' then ''Balance''
      else if h = ''reference'' then ''Reference''
      else (case h of [] \<Rightarrow> [] | c # cs \<Rightarrow> upper_char c # cs))"

text \<open>\<open>`"${value.replace(/"/g, '""')}"`\<close>\<close>

definition double_quotes :: "string \<Rightarrow> string" where
  "double_quotes v = concat (map (\<lambda>c. if c = dquote then [dquote, dquote] else [c]) v)"

definition quote_wrap :: "string \<Rightarrow> string" where
  "quote_wrap v = dquote # double_quotes v @ [dquote]"

definition needs_quoting :: "string \<Rightarrow> bool" where
  "needs_quoting v = (comma \<in> set v \<or> dquote \<in> set v \<or> newline \<in> set v)"

text \<open>\<open>value.replace(/,/g, '')\<close>\<close>

definition strip_commas :: "string \<Rightarrow> string" where
  "strip_commas v = filter (\<lambda>c. c \<noteq> comma) v"

text \<open>One cell of a row: the body of \<open>headers.map(header => ...)\<close>.\<close>

definition csv_cell :: "transaction \<Rightarrow> string \<Rightarrow> string" where
  "csv_cell t header =
     (let v = text_of (fld t header)
      in if header = ''amount'' \<or> header = ''balance'' then strip_commas v
         else if header = ''date'' then quote_wrap v
         else if needs_quoting v then quote_wrap v
         else v)"

definition convertToCSV :: "transaction list \<Rightarrow> string" where
  "convertToCSV transactions =
     (if transactions = [] then []
      else
        let headers = csv_columns transactions;
            csvHeaders = join [comma] (map header_label headers);
            csvRows = map (\<lambda>t. join [comma] (map (csv_cell t) headers)) transactions
        in join [newline] (csvHeaders # csvRows))"

section \<open>popup.js: the popup's own convertToCSV\<close>

text \<open>
  \<open>[...new Set(transactions.flatMap(t => Object.keys(t)))]\<close>: every property name, in
  the order of its first appearance.
\<close>

definition first_seen :: "'a list \<Rightarrow> 'a list" where
  "first_seen xs = rev (remdups (rev xs))"

definition popup_headers :: "transaction list \<Rightarrow> string list" where
  "popup_headers transactions = first_seen (concat (map (map fst) transactions))"

definition popup_cell :: "transaction \<Rightarrow> string \<Rightarrow> string" where
  "popup_cell t header =
     (let v = text_of (fld t header)
      in if needs_quoting v then quote_wrap v else v)"

definition popup_convertToCSV :: "transaction list \<Rightarrow> string" where
  "popup_convertToCSV transactions =
     (if transactions = [] then []
      else
        let headers = popup_headers transactions;
            csvHeaders = join [comma] headers;
            csvRows = map (\<lambda>t. join [comma] (map (popup_cell t) headers)) transactions
        in join [newline] (csvHeaders # csvRows))"

section \<open>The standard CSV quoting rule, for reading a file back\<close>

text \<open>
  A reader of comma-separated text: a field that opens with a double quote runs to
  the closing quote, a doubled quote inside it standing for one quote; commas separate
  fields and line feeds separate rows outside quotes.  The scanner carries the current
  field and row reversed.
\<close>

datatype csv_state = FieldStart | Unquoted | Quoted | QuoteEnd

fun csv_scan ::
  "csv_state \<Rightarrow> string \<Rightarrow> string list \<Rightarrow> string list list \<Rightarrow> string \<Rightarrow> string list list"
where
  "csv_scan st cur row rows [] = rev (rev (rev cur # row) # rows)"
| "csv_scan st cur row rows (c # cs) =
     (if st = Quoted then
        (if c = dquote then csv_scan QuoteEnd cur row rows cs
         else csv_scan Quoted (c # cur) row rows cs)
      else if st = QuoteEnd \<and> c = dquote then csv_scan Quoted (dquote # cur) row rows cs
      else if c = comma then csv_scan FieldStart [] (rev cur # row) rows cs
      else if c = newline then csv_scan FieldStart [] [] (rev (rev cur # row) # rows) cs
      else if st = FieldStart \<and> c = dquote then csv_scan Quoted cur row rows cs
      else csv_scan Unquoted (c # cur) row rows cs)"

definition csv_parse :: "string \<Rightarrow> string list list" where
  "csv_parse s = csv_scan FieldStart [] [] [] s"

text \<open>\<open>encodes e v\<close>: the text \<open>e\<close> is one of the two ways the serializer writes \<open>v\<close>.\<close>

definition encodes :: "string \<Rightarrow> string \<Rightarrow> bool" where
  "encodes e v = (e = quote_wrap v \<or> (e = v \<and> \<not> needs_quoting v))"

text \<open>The value a reader gets back for a cell: amount and balance lose their commas.\<close>

definition cell_value :: "transaction \<Rightarrow> string \<Rightarrow> string" where
  "cell_value t header =
     (if header = ''amount'' \<or> header = ''balance'' then strip_commas (text_of (fld t header))
      else text_of (fld t header))"

section \<open>Regular expressions as the engine runs them\<close>

text \<open>
  The patterns of the source are written in a small abstract syntax and run by a
  backtracking matcher that returns every way to match, in the order in which the
  JavaScript engine tries them: the first element is the engine's match.  Only the
  constructs the source uses are present: character classes, sequence, alternation,
  greedy and lazy repetition, capture groups, \<open>^\<close>, \<open>$\<close> and \<open>\b\<close>.
\<close>

datatype cclass =
    Lit char              \<comment> \<open>a literal character\<close>
  | LitI char             \<comment> \<open>a literal character under the \<open>i\<close> flag\<close>
  | Digit                 \<comment> \<open>\<open>\d\<close>\<close>
  | Space                 \<comment> \<open>\<open>\s\<close>\<close>
  | Dot                   \<comment> \<open>\<open>.\<close>: anything but a line terminator\<close>
  | Among "char list"     \<comment> \<open>\<open>[abc]\<close>\<close>
  | DigitOr "char list"   \<comment> \<open>\<open>[\dabc]\<close>\<close>

fun cc_match :: "cclass \<Rightarrow> char \<Rightarrow> bool" where
  "cc_match (Lit l) c = (c = l)"
| "cc_match (LitI l) c = (upper_char c = upper_char l)"
| "cc_match Digit c = is_digit c"
| "cc_match Space c = is_ws c"
| "cc_match Dot c = (c \<noteq> CHR 0x0A \<and> c \<noteq> CHR 0x0D)"
| "cc_match (Among cs) c = (c \<in> set cs)"
| "cc_match (DigitOr cs) c = (is_digit c \<or> c \<in> set cs)"

datatype rx =
    Ch cclass
  | Eps
  | Seq rx rx
  | Alt rx rx
  | Star rx               \<comment> \<open>\<open>r*\<close>, greedy\<close>
  | StarLazy rx           \<comment> \<open>\<open>r*?\<close>\<close>
  | Grp nat rx            \<comment> \<open>capture group number \<open>n\<close>\<close>
  | Bol                   \<comment> \<open>\<open>^\<close>\<close>
  | Eol                   \<comment> \<open>\<open>$\<close>\<close>
  | WordB                 \<comment> \<open>\<open>\b\<close>\<close>

text \<open>
  A matcher state: the input consumed so far (reversed, so its head is the character
  just before the current position), the input left, and the captures made so far
  (latest first).
\<close>

record mstate =
  behind :: string
  ahead :: string
  caps :: "(nat \<times> string) list"

definition is_word_char :: "char \<Rightarrow> bool" where
  "is_word_char c =
     (c \<in> set ''abcdefghijklmnopqrstuvwxyzABCDEFGHIJKLMNOPQRSTUVWXYZ0123456789_'')"

definition word_before :: "mstate \<Rightarrow> bool" where
  "word_before s = (case behind s of [] \<Rightarrow> False | c # _ \<Rightarrow> is_word_char c)"

definition word_after :: "mstate \<Rightarrow> bool" where
  "word_after s = (case ahead s of [] \<Rightarrow> False | c # _ \<Rightarrow> is_word_char c)"

text \<open>The text consumed between state \<open>s\<close> and a later state \<open>t\<close>.\<close>

definition consumed :: "mstate \<Rightarrow> mstate \<Rightarrow> string" where
  "consumed s t = rev (take (length (behind t) - length (behind s)) (behind t))"

function ms :: "rx \<Rightarrow> mstate \<Rightarrow> mstate list" where
  "ms (Ch k) s =
     (case ahead s of
        [] \<Rightarrow> []
      | c # cs \<Rightarrow> if cc_match k c then [s\<lparr>behind := c # behind s, ahead := cs\<rparr>] else [])"
| "ms Eps s = [s]"
| "ms (Seq a b) s = concat (map (ms b) (ms a s))"
| "ms (Alt a b) s = ms a s @ ms b s"
| "ms (Star a) s =
     concat (map (ms (Star a))
               (filter (\<lambda>t. length (ahead t) < length (ahead s)) (ms a s))) @ [s]"
| "ms (StarLazy a) s =
     s # concat (map (ms (StarLazy a))
                   (filter (\<lambda>t. length (ahead t) < length (ahead s)) (ms a s)))"
| "ms (Grp n a) s = map (\<lambda>t. t\<lparr>caps := (n, consumed s t) # caps t\<rparr>) (ms a s)"
| "ms Bol s = (if behind s = [] then [s] else [])"
| "ms Eol s = (if ahead s = [] then [s] else [])"
| "ms WordB s = (if word_before s \<noteq> word_after s then [s] else [])"
  by pat_completeness auto
termination
  by (relation "inv_image (less_than <*lex*> less_than) (\<lambda>(r, s). (size r, length (ahead s)))")
     auto

text \<open>The two equations for repetition unfold without end; they are applied by hand.\<close>

declare ms.simps(5) [simp del] ms.simps(6) [simp del]

text \<open>
  \<open>RegExp.prototype.exec\<close> without the \<open>g\<close> flag: the first start position, from the
  left, at which the pattern matches; the result is the state at that position and the
  state the match reaches.
\<close>

fun search_from :: "rx \<Rightarrow> string \<Rightarrow> string \<Rightarrow> (mstate \<times> mstate) option" where
  "search_from r p [] =
     (case ms r \<lparr>behind = p, ahead = [], caps = []\<rparr> of
        [] \<Rightarrow> None
      | t # _ \<Rightarrow> Some (\<lparr>behind = p, ahead = [], caps = []\<rparr>, t))"
| "search_from r p (c # cs) =
     (case ms r \<lparr>behind = p, ahead = c # cs, caps = []\<rparr> of
        [] \<Rightarrow> search_from r (c # p) cs
      | t # _ \<Rightarrow> Some (\<lparr>behind = p, ahead = c # cs, caps = []\<rparr>, t))"

text \<open>
  \<open>s.match(r)\<close>: the array of the whole match (index 0) and the capture groups, as an
  association list; \<open>None\<close> for \<open>null\<close>.  \<open>r.test(s)\<close> says whether there is a match.
\<close>

definition re_match :: "rx \<Rightarrow> string \<Rightarrow> (nat \<times> string) list option" where
  "re_match r s =
     (case search_from r [] s of
        None \<Rightarrow> None
      | Some (s0, t) \<Rightarrow> Some ((0, consumed s0 t) # caps t))"

definition re_test :: "rx \<Rightarrow> string \<Rightarrow> bool" where
  "re_test r s = (re_match r s \<noteq> None)"

text \<open>
  A group of a match array.  Every group read by the source belongs to a mandatory
  part of its pattern, so it is a string whenever there is a match; a group that did
  not take part reads as the empty string here.
\<close>

definition group :: "(nat \<times> string) list \<Rightarrow> nat \<Rightarrow> string" where
  "group m n = text_of (map_of m n)"

subsection \<open>Pattern notation\<close>

definition Opt :: "rx \<Rightarrow> rx" where
  "Opt r = Alt r Eps"

definition Plus :: "rx \<Rightarrow> rx" where
  "Plus r = Seq r (Star r)"

definition PlusLazy :: "rx \<Rightarrow> rx" where
  "PlusLazy r = Seq r (StarLazy r)"

fun seqs :: "rx list \<Rightarrow> rx" where
  "seqs [] = Eps"
| "seqs [r] = r"
| "seqs (r # rs) = Seq r (seqs rs)"

fun alts :: "rx list \<Rightarrow> rx" where
  "alts [] = Eps"
| "alts [r] = r"
| "alts (r # rs) = Alt r (alts rs)"

definition str_i :: "string \<Rightarrow> rx" where
  "str_i s = seqs (map (\<lambda>c. Ch (LitI c)) s)"

text \<open>\<open>\d{1,2}\<close>, \<open>\d{2}\<close>, \<open>\d{4}\<close> and \<open>\d{2,4}\<close>.\<close>

definition d12 :: rx where
  "d12 = Seq (Ch Digit) (Opt (Ch Digit))"

definition d2 :: rx where
  "d2 = Seq (Ch Digit) (Ch Digit)"

definition d4 :: rx where
  "d4 = seqs [Ch Digit, Ch Digit, Ch Digit, Ch Digit]"

definition d24 :: rx where
  "d24 = seqs [Ch Digit, Ch Digit, Opt (Seq (Ch Digit) (Opt (Ch Digit)))]"

text \<open>
  \<open>(Jan|Feb|...|Dec|January|...|December)\<close> under the \<open>i\<close> flag, in the order of the
  source.
\<close>

definition month_names :: "string list" where
  "month_names =
     [''Jan'', ''Feb'', ''Mar'', ''Apr'', ''May'', ''Jun'', ''Jul'', ''Aug'', ''Sep'', ''Oct'',
      ''Nov'', ''Dec'', ''January'', ''February'', ''March'', ''April'', ''May'', ''June'',
      ''July'', ''August'', ''September'', ''October'', ''November'', ''December'']"

definition month_alt :: rx where
  "month_alt = alts (map str_i month_names)"

subsection \<open>What a pattern is sure to capture\<close>

text \<open>
  \<open>nullable r\<close>: the pattern may match without consuming a character.
  \<open>groups r\<close>: the capture groups inside it.  \<open>captures r n\<close>: by the shape of \<open>r\<close> alone,
  every match sets group \<open>n\<close> to a non-empty text.
\<close>

fun nullable :: "rx \<Rightarrow> bool" where
  "nullable (Ch k) = False"
| "nullable Eps = True"
| "nullable (Seq a b) = (nullable a \<and> nullable b)"
| "nullable (Alt a b) = (nullable a \<or> nullable b)"
| "nullable (Star a) = True"
| "nullable (StarLazy a) = True"
| "nullable (Grp n a) = nullable a"
| "nullable Bol = True"
| "nullable Eol = True"
| "nullable WordB = True"

fun groups :: "rx \<Rightarrow> nat list" where
  "groups (Seq a b) = groups a @ groups b"
| "groups (Alt a b) = groups a @ groups b"
| "groups (Star a) = groups a"
| "groups (StarLazy a) = groups a"
| "groups (Grp n a) = n # groups a"
| "groups r = []"

fun captures :: "rx \<Rightarrow> nat \<Rightarrow> bool" where
  "captures (Seq a b) n = ((captures a n \<and> n \<notin> set (groups b)) \<or> captures b n)"
| "captures (Alt a b) n = (captures a n \<and> captures b n)"
| "captures (Grp m a) n = (if m = n then \<not> nullable a else captures a n)"
| "captures r n = False"

subsection \<open>replace and split\<close>

text \<open>\<open>s.replace(r, repl)\<close> for a pattern without the \<open>g\<close> flag and a plain replacement.\<close>

definition re_replace :: "rx \<Rightarrow> string \<Rightarrow> string \<Rightarrow> string" where
  "re_replace r repl s =
     (case search_from r [] s of
        None \<Rightarrow> s
      | Some (s0, t) \<Rightarrow> rev (behind s0) @ repl @ ahead t)"

text \<open>
  \<open>s.split(sep)\<close> for a non-empty string separator: \<open>cur\<close> is the piece being read
  (reversed) and \<open>skip\<close> counts the separator characters still to pass over.
\<close>

fun split_go :: "string \<Rightarrow> string \<Rightarrow> nat \<Rightarrow> string \<Rightarrow> string list" where
  "split_go sep cur skip [] = [rev cur]"
| "split_go sep cur skip (c # cs) =
     (if skip > 0 then split_go sep cur (skip - 1) cs
      else if startsWith (c # cs) sep then rev cur # split_go sep [] (length sep - 1) cs
      else split_go sep (c # cur) 0 cs)"

definition split_str :: "string \<Rightarrow> string \<Rightarrow> string list" where
  "split_str sep s = split_go sep [] 0 s"

text \<open>
  \<open>s.split(r)\<close> for a pattern that has no capture group and never matches the empty
  string, as \<open>/\s+from\s+/i\<close> and \<open>/\s+to\s+/i\<close>: the text is cut at each match, found
  from the left after the previous one.
\<close>

function re_split_go :: "rx \<Rightarrow> string \<Rightarrow> string \<Rightarrow> string \<Rightarrow> string list" where
  "re_split_go r p cur [] = [rev cur]"
| "re_split_go r p cur (c # cs) =
     (case ms r \<lparr>behind = p, ahead = c # cs, caps = []\<rparr> of
        [] \<Rightarrow> re_split_go r (c # p) (c # cur) cs
      | t # _ \<Rightarrow>
          if length (ahead t) < length (c # cs)
          then rev cur # re_split_go r (behind t) [] (ahead t)
          else re_split_go r (c # p) (c # cur) cs)"
  by pat_completeness auto
termination
  by (relation "measure (\<lambda>(r, p, cur, s). length s)") auto

definition re_split :: "rx \<Rightarrow> string \<Rightarrow> string list" where
  "re_split r s = re_split_go r [] [] s"

section \<open>utils.js: normalizeDate\<close>

text \<open>The \<open>monthNames\<close> object; a name that is not a key reads as \<open>undefined\<close>.\<close>

definition monthNames_table :: "(string \<times> string) list" where
  "monthNames_table =
     [(''jan'', ''01''), (''feb'', ''02''), (''mar'', ''03''), (''apr'', ''04''),
      (''may'', ''05''), (''jun'', ''06''), (''jul'', ''07''), (''aug'', ''08''),
      (''sep'', ''09''), (''oct'', ''10''), (''nov'', ''11''), (''dec'', ''12''),
      (''january'', ''01''), (''february'', ''02''), (''march'', ''03''), (''april'', ''04''),
      (''june'', ''06''), (''july'', ''07''), (''august'', ''08''),
      (''september'', ''09''), (''october'', ''10''), (''november'', ''11''),
      (''december'', ''12'')]"

definition monthNames :: "string \<Rightarrow> string" where
  "monthNames k = (case map_of monthNames_table k of None \<Rightarrow> ''undefined'' | Some m \<Rightarrow> m)"

text \<open>\<open>/^(Jan|...|December)\s+(\d{1,2}),?\s+(\d{4})$/i\<close>\<close>

definition monthNamePattern :: rx where
  "monthNamePattern =
     seqs [Bol, Grp 1 month_alt, Plus (Ch Space), Grp 2 d12, Opt (Ch (Lit CHR '','')),
           Plus (Ch Space), Grp 3 d4, Eol]"

text \<open>\<open>/^(\d{1,2})\/(\d{1,2})\/(\d{4})$/\<close>\<close>

definition mmddyyyyPattern :: rx where
  "mmddyyyyPattern =
     seqs [Bol, Grp 1 d12, Ch (Lit CHR ''/''), Grp 2 d12, Ch (Lit CHR ''/''), Grp 3 d4, Eol]"

text \<open>\<open>/^(\d{1,2})-(\d{1,2})-(\d{4})$/\<close>\<close>

definition mmddyyyyDashPattern :: rx where
  "mmddyyyyDashPattern =
     seqs [Bol, Grp 1 d12, Ch (Lit CHR ''-''), Grp 2 d12, Ch (Lit CHR ''-''), Grp 3 d4, Eol]"

text \<open>\<open>/^(\d{4})-(\d{1,2})-(\d{1,2})$/\<close>\<close>

definition yyyymmddPattern :: rx where
  "yyyymmddPattern =
     seqs [Bol, Grp 1 d4, Ch (Lit CHR ''-''), Grp 2 d12, Ch (Lit CHR ''-''), Grp 3 d12, Eol]"

definition normalizeDate :: "string \<Rightarrow> string" where
  "normalizeDate dateStr =
     (let trimmedDate = trim dateStr
      in case re_match monthNamePattern trimmedDate of
           Some m \<Rightarrow>
             (let monthName = group m 1; day = group m 2; year = group m 3;
                  month = monthNames (toLowerCase monthName)
              in padStart2 day @ ''/'' @ month @ ''/'' @ year)
         | None \<Rightarrow>
        (case re_match mmddyyyyPattern trimmedDate of
           Some m \<Rightarrow>
             (let month = group m 1; day = group m 2; year = group m 3
              in padStart2 day @ ''/'' @ padStart2 month @ ''/'' @ year)
         | None \<Rightarrow>
        (case re_match mmddyyyyDashPattern trimmedDate of
           Some m \<Rightarrow>
             (let month = group m 1; day = group m 2; year = group m 3
              in padStart2 day @ ''/'' @ padStart2 month @ ''/'' @ year)
         | None \<Rightarrow>
        (case re_match yyyymmddPattern trimmedDate of
           Some m \<Rightarrow>
             (let year = group m 1; month = group m 2; day = group m 3
              in padStart2 day @ ''/'' @ padStart2 month @ ''/'' @ year)
         | None \<Rightarrow> trimmedDate))))"

section \<open>utils.js: isDate and isAmount\<close>

text \<open>The five \<open>datePatterns\<close> of \<open>isDate\<close>, in order.\<close>

definition datePatterns :: "rx list" where
  "datePatterns =
     [seqs [Bol, d12, Ch (Lit CHR ''/''), d12, Ch (Lit CHR ''/''), d24, Eol],
      seqs [Bol, d12, Ch (Lit CHR ''-''), d12, Ch (Lit CHR ''-''), d24, Eol],
      seqs [Bol, d4, Ch (Lit CHR ''-''), d12, Ch (Lit CHR ''-''), d12, Eol],
      seqs [Bol, Grp 1 month_alt, Plus (Ch Space), d12, Opt (Ch (Lit CHR '','')),
            Plus (Ch Space), d4, Eol],
      seqs [Bol, Grp 1 month_alt, Plus (Ch Space), d12, Plus (Ch Space), d4, Eol]]"

definition isDate :: "string \<Rightarrow> bool" where
  "isDate text = list_ex (\<lambda>pattern. re_test pattern (trim text)) datePatterns"

text \<open>\<open>[\d,]+\.\d{2}\<close>, the body shared by the seven \<open>amountPatterns\<close>.\<close>

definition amount_body :: rx where
  "amount_body = seqs [Plus (Ch (DigitOr '','')), Ch (Lit CHR ''.''), d2]"

text \<open>\<open>/^\([\d,]+\.\d{2}\)$/\<close> and \<open>/^\$\([\d,]+\.\d{2}\)$/\<close>, the last two patterns.\<close>

definition parenAmountPattern :: rx where
  "parenAmountPattern =
     Seq Bol (Seq (Ch (Lit CHR ''('')) (seqs [amount_body, Ch (Lit CHR '')''), Eol]))"

definition dollarParenAmountPattern :: rx where
  "dollarParenAmountPattern =
     Seq Bol (Seq (Ch (Lit CHR ''$''))
       (Seq (Ch (Lit CHR ''('')) (seqs [amount_body, Ch (Lit CHR '')''), Eol])))"

definition amountPatterns :: "rx list" where
  "amountPatterns =
     [seqs [Bol, Opt (Ch (Lit CHR ''$'')), Opt (Ch (Lit CHR ''-'')), amount_body, Eol],
      seqs [Bol, Opt (Ch (Lit CHR ''-'')), Ch (Lit CHR ''$''), amount_body, Eol],
      seqs [Bol, amount_body, Eol],
      seqs [Bol, Ch (Lit CHR ''$''), amount_body, Eol],
      seqs [Bol, Ch (Lit CHR ''-''), amount_body, Eol],
      parenAmountPattern,
      dollarParenAmountPattern]"

definition isAmount :: "string \<Rightarrow> bool" where
  "isAmount text =
     (if text = [] then False
      else let cleanText = trim text
           in list_ex (\<lambda>pattern. re_test pattern cleanText) amountPatterns)"

section \<open>utils.js: normalizeAmount\<close>

text \<open>
  \<open>parseFloat\<close> skips leading white space and reads the longest prefix that is a
  decimal literal: an optional sign, then \<open>Infinity\<close>, or digits with an optional
  fraction, or a fraction alone, then an optional exponent.  The model returns the
  literal read, \<open>None\<close> when there is none (the result is \<open>NaN\<close>).  The literal fixes the
  number, so what \<open>num.toFixed(2)\<close> prints is a function of it; binary floating point is
  not modelled, and that function is a parameter \<open>toFixed2\<close> of \<open>normalizeAmount\<close>.
\<close>

definition exponent_part :: "string \<Rightarrow> string" where
  "exponent_part u =
     (case u of
        [] \<Rightarrow> []
      | e # r \<Rightarrow>
          if e = CHR ''e'' \<or> e = CHR ''E'' then
            (let sg = (case r of [] \<Rightarrow> []
                       | c # _ \<Rightarrow> if c = CHR ''+'' \<or> c = CHR ''-'' then [c] else []);
                 ds = takeWhile is_digit (drop (length sg) r)
             in if ds = [] then [] else e # sg @ ds)
          else [])"

definition parseFloat :: "string \<Rightarrow> string option" where
  "parseFloat s =
     (let t = dropWhile is_ws s;
          sg = (case t of [] \<Rightarrow> []
                | c # _ \<Rightarrow> if c = CHR ''+'' \<or> c = CHR ''-'' then [c] else []);
          u = drop (length sg) t
      in if startsWith u ''Infinity'' then Some (sg @ ''Infinity'')
         else
           let ip = takeWhile is_digit u;
               u1 = dropWhile is_digit u;
               has_dot = startsWith u1 ''.'';
               fp = (if has_dot then takeWhile is_digit (tl u1) else []);
               u2 = (if has_dot then dropWhile is_digit (tl u1) else u1)
           in if ip = [] \<and> fp = [] then None
              else Some (sg @ ip @ (if has_dot then ''.'' @ fp else []) @ exponent_part u2))"

text \<open>
  \<open>amountStr.replace(/[,$]/g, '')\<close>, then \<open>parseFloat\<close>; both arms of the final
  conditional are \<open>num.toFixed(2)\<close>.
\<close>

definition normalizeAmount :: "(string \<Rightarrow> string) \<Rightarrow> string \<Rightarrow> string" where
  "normalizeAmount toFixed2 amountStr =
     (let cleanAmount = filter (\<lambda>c. c \<noteq> CHR '','' \<and> c \<noteq> CHR ''$'') amountStr
      in case parseFloat cleanAmount of
           None \<Rightarrow> amountStr
         | Some num \<Rightarrow>
             if startsWith amountStr ''-'' \<or> str_includes amountStr ''(''
             then toFixed2 num else toFixed2 num)"

text \<open>
  A signed two-decimal string, the shape \<open>toFixed(2)\<close> prints for a finite number below
  \<open>1e21\<close>: an optional minus sign, digits, a point and two digits.
\<close>

definition signed_two_decimal :: "string \<Rightarrow> bool" where
  "signed_two_decimal s =
     (let u = (if startsWith s ''-'' then tl s else s);
          ip = takeWhile is_digit u;
          r = dropWhile is_digit u
      in ip \<noteq> [] \<and>
         (case r of
            [p, a, b] \<Rightarrow> p = CHR ''.'' \<and> is_digit a \<and> is_digit b
          | _ \<Rightarrow> False))"

section \<open>The transaction parser: parseDescriptionAndVendor\<close>

text \<open>\<open>/\s+from\s+/i\<close> and \<open>/\s+to\s+/i\<close>\<close>

definition fromPattern :: rx where
  "fromPattern = seqs [Plus (Ch Space), str_i ''from'', Plus (Ch Space)]"

definition toPattern :: rx where
  "toPattern = seqs [Plus (Ch Space), str_i ''to'', Plus (Ch Space)]"

text \<open>\<open>parts[i]\<close>, with \<open>None\<close> for \<open>undefined\<close>.\<close>

definition part :: "string list \<Rightarrow> nat \<Rightarrow> string option" where
  "part parts i = (if i < length parts then Some (parts ! i) else None)"

text \<open>The result object \<open>{ description, vendor }\<close> as a pair.\<close>

definition parseDescriptionAndVendor :: "string \<Rightarrow> string \<times> string" where
  "parseDescriptionAndVendor text =
     (if str_includes text '' - '' then
        (let parts = split_str '' - '' text
         in if length parts \<ge> 2
            then (trim (text_of (part parts 0)), trim (text_of (part parts (length parts - 1))))
            else (text, []))
      else if str_includes (toLowerCase text) '' from '' then
        (let parts = re_split fromPattern text
         in (trim (text_of (part parts 0)),
             if length parts > 1 then trim (text_of (part parts 1)) else []))
      else if str_includes (toLowerCase text) '' to '' then
        (let parts = re_split toPattern text
         in (trim (text_of (part parts 0)),
             if length parts > 1 then trim (text_of (part parts 1)) else []))
      else (text, []))"

section \<open>The transaction parser: parseRBCTransactionRow\<close>

text \<open>
  A table row, as far as \<open>parseRBCTransactionRow\<close> looks at it: one field for the
  answer to each DOM query the function makes.  An element that the query does not find
  is \<open>None\<close>; text is the element's \<open>textContent\<close>, untrimmed.
\<close>

record row =
  first_cell_headers :: "string option"
    \<comment> \<open>the \<open>headers\<close> attribute of \<open>row.querySelector('td')\<close>\<close>
  date_cell :: "string option"
    \<comment> \<open>\<open>td.date-column-padding, td[headers*="pda-date"], td[headers*="cc-date"], td[class*="date"]\<close>\<close>
  row_id :: "string option"
    \<comment> \<open>\<open>row.getAttribute('id')\<close>\<close>
  row_text :: string
    \<comment> \<open>\<open>row.textContent\<close>\<close>
  desc_divs :: "string list option"
    \<comment> \<open>the \<open>div\<close>s of \<open>th.rbc-transaction-list-desc, td.rbc-transaction-list-desc, td.description-column-padding\<close>\<close>
  cell_texts :: "string list"
    \<comment> \<open>the cells \<open>td, th\<close>, in order\<close>
  credit_withdraw :: "string option"
    \<comment> \<open>\<open>td.rbc-transaction-list-withdraw span\<close>\<close>
  credit_deposit :: "string option"
    \<comment> \<open>\<open>td.rbc-transaction-list-deposit span\<close>\<close>
  debit_withdraw :: "string option"
    \<comment> \<open>\<open>td.rbc-transaction-list-withdraw span, td[class*="withdraw"] span\<close>\<close>
  debit_deposit :: "string option"
    \<comment> \<open>\<open>td.rbc-transaction-list-deposit span, td[class*="deposit"] span\<close>\<close>
  balance_span :: "string option"
    \<comment> \<open>\<open>td.rbc-transaction-list-balance span, td[class*="balance"] span\<close>\<close>

definition accountType_of :: "row \<Rightarrow> string" where
  "accountType_of r =
     (let headersAttr = text_of (first_cell_headers r);
          isCredit = str_includes headersAttr ''cc-date'';
          isDebit = str_includes headersAttr ''pda-date''
      in if isCredit then ''credit'' else if isDebit then ''debit'' else ''unknown'')"

text \<open>\<open>/(\d{4}-\d{2}-\d{2})/\<close> for the row id, and the five patterns tried on the row text.\<close>

definition rowIdDatePattern :: rx where
  "rowIdDatePattern = Grp 1 (seqs [d4, Ch (Lit CHR ''-''), d2, Ch (Lit CHR ''-''), d2])"

definition rowTextDatePatterns :: "rx list" where
  "rowTextDatePatterns =
     [seqs [WordB, Grp 1 month_alt, Plus (Ch Space), d12, Opt (Ch (Lit CHR '','')),
            Plus (Ch Space), d4, WordB],
      seqs [WordB, Grp 1 month_alt, Plus (Ch Space), d12, Plus (Ch Space), d4, WordB],
      seqs [WordB, d4, Ch (Lit CHR ''-''), d2, Ch (Lit CHR ''-''), d2, WordB],
      seqs [WordB, d12, Ch (Lit CHR ''/''), d12, Ch (Lit CHR ''/''), d4, WordB],
      seqs [WordB, d12, Ch (Lit CHR ''-''), d12, Ch (Lit CHR ''-''), d4, WordB]]"

text \<open>The \<open>for (const pattern of datePatterns)\<close> loop: the first pattern that matches.\<close>

fun first_match :: "rx list \<Rightarrow> string \<Rightarrow> (nat \<times> string) list option" where
  "first_match [] s = None"
| "first_match (p # ps) s =
     (case re_match p s of None \<Rightarrow> first_match ps s | Some m \<Rightarrow> Some m)"

definition row_date :: "row \<Rightarrow> string" where
  "row_date r =
     (let d1 = (case date_cell r of None \<Rightarrow> [] | Some t \<Rightarrow> normalizeDate (trim t));
          d2 = (if d1 = [] then
                  (case re_match rowIdDatePattern (text_of (row_id r)) of
                     None \<Rightarrow> d1
                   | Some m \<Rightarrow> normalizeDate (group m 1))
                else d1)
      in if d2 = [] then
           (case first_match rowTextDatePatterns (row_text r) of
              None \<Rightarrow> d2
            | Some m \<Rightarrow> normalizeDate (group m 0))
         else d2)"

text \<open>
  The fallback for a row without a description cell: the longest cell text that is
  neither an amount nor a date and has more than 5 characters (the first among equals).
\<close>

fun longest_text :: "string \<Rightarrow> string list \<Rightarrow> string" where
  "longest_text longestText [] = longestText"
| "longest_text longestText (cell # cells) =
     (let text = trim cell
      in if length text > length longestText \<and> \<not> isAmount text \<and> \<not> isDate text
            \<and> length text > 5
         then longest_text text cells
         else longest_text longestText cells)"

text \<open>Description and vendor, as a pair.\<close>

definition row_description :: "row \<Rightarrow> string \<Rightarrow> string \<times> string" where
  "row_description r accountType =
     (case desc_divs r of
        Some descDivs \<Rightarrow>
          (let descriptions = filter (\<lambda>t. t \<noteq> []) (map trim descDivs)
           in if accountType = ''credit'' then
                (case descriptions of
                   [] \<Rightarrow> ([], [])
                 | text # _ \<Rightarrow>
                     (if str_includes (toLowerCase text) ''payment'' then ''Payment''
                      else if str_includes (toLowerCase text) ''refund'' then ''Refund''
                      else ''Purchase'',
                      text))
              else
                (case descriptions of
                   [] \<Rightarrow> ([], [])
                 | [d] \<Rightarrow> parseDescriptionAndVendor d
                 | d # v # _ \<Rightarrow> (d, v)))
      | None \<Rightarrow>
          (let longestText = longest_text [] (cell_texts r)
           in if longestText \<noteq> [] then parseDescriptionAndVendor longestText else ([], [])))"

definition row_type :: "string \<Rightarrow> string" where
  "row_type description =
     (if description \<noteq> [] then
        (let desc = toLowerCase description
         in if str_includes desc ''interac'' then ''Interac''
            else if str_includes desc ''contactless'' then ''Contactless''
            else if str_includes desc ''deposit'' then ''Deposit''
            else if str_includes desc ''withdrawal'' then ''Withdrawal''
            else if str_includes desc ''transfer'' then ''Transfer''
            else if str_includes desc ''payment'' then ''Payment''
            else [])
      else [])"

text \<open>\<open>/^-\$?/\<close>\<close>

definition leadingMinusPattern :: rx where
  "leadingMinusPattern = seqs [Bol, Ch (Lit CHR ''-''), Opt (Ch (Lit CHR ''$''))]"

text \<open>\<open>element && element.textContent.trim()\<close>: the element is there and its text is not blank.\<close>

definition populated :: "string option \<Rightarrow> bool" where
  "populated e = (case e of None \<Rightarrow> False | Some t \<Rightarrow> trim t \<noteq> [])"

text \<open>The amount read from the withdraw and deposit columns, before the scan of all cells.\<close>

definition column_amount :: "row \<Rightarrow> string \<Rightarrow> string" where
  "column_amount r accountType =
     (if accountType = ''credit'' then
        (if populated (credit_withdraw r) then
           (let amountText = trim (text_of (credit_withdraw r))
            in if startsWith amountText ''$'' then ''-'' @ amountText else ''-$'' @ amountText)
         else if populated (credit_deposit r) then
           (let amountText = trim (text_of (credit_deposit r));
                cleanAmount = re_replace leadingMinusPattern [] amountText
            in if \<not> startsWith cleanAmount ''$'' then ''$'' @ cleanAmount else cleanAmount)
         else [])
      else
        (let a = (case debit_withdraw r of None \<Rightarrow> [] | Some t \<Rightarrow> trim t)
         in if a = [] then (case debit_deposit r of None \<Rightarrow> a | Some t \<Rightarrow> trim t) else a))"

text \<open>\<open>for (const cell of allCells) { ... if (isAmount(text)) { ...; break; } }\<close>\<close>

fun first_amount :: "string list \<Rightarrow> string" where
  "first_amount [] = []"
| "first_amount (cell # cells) =
     (let text = trim cell in if isAmount text then text else first_amount cells)"

definition row_amount :: "row \<Rightarrow> string \<Rightarrow> string" where
  "row_amount r accountType =
     (let a = column_amount r accountType
      in if a = [] then first_amount (cell_texts r) else a)"

definition row_balance :: "row \<Rightarrow> string \<Rightarrow> string" where
  "row_balance r amount =
     (let b = (if populated (balance_span r) then trim (text_of (balance_span r)) else [])
      in if b = [] then
           (let amounts = filter (\<lambda>text. isAmount text \<and> text \<noteq> amount)
                            (map trim (cell_texts r))
            in if amounts \<noteq> [] then last amounts else b)
         else b)"

definition parseRBCTransactionRow :: "row \<Rightarrow> transaction" where
  "parseRBCTransactionRow r =
     (let accountType = accountType_of r;
          date = row_date r;
          (description, vendor) = row_description r accountType;
          type = row_type description;
          amount = row_amount r accountType;
          balance = row_balance r amount
      in [(''date'', date), (''description'', description), (''vendor'', vendor),
          (''amount'', amount), (''type'', type), (''balance'', balance),
          (''reference'', []), (''accountType'', accountType)])"

section \<open>transactionExtractor.js: extractFromRBCTransactionRows\<close>

text \<open>
  The loop over the rows, pushing onto \<open>this.transactions\<close> each parsed row that
  \<open>isValidTransaction\<close> accepts; the first argument is \<open>this.transactions\<close> before the
  call, the result is \<open>this.transactions\<close> after it.
\<close>

fun extractFromRBCTransactionRows :: "transaction list \<Rightarrow> row list \<Rightarrow> transaction list" where
  "extractFromRBCTransactionRows transactions [] = transactions"
| "extractFromRBCTransactionRows transactions (r # rows) =
     (let transaction = parseRBCTransactionRow r
      in if isValidTransaction (Some transaction)
         then extractFromRBCTransactionRows (transactions @ [transaction]) rows
         else extractFromRBCTransactionRows transactions rows)"

subsection \<open>Sample rows\<close>

text \<open>
  A credit-card row (its first cell's \<open>headers\<close> attribute holds \<open>cc-date\<close>) with the given
  texts in the withdraw and deposit columns, and a row in which no query finds anything.
\<close>

definition credit_row :: "string option \<Rightarrow> string option \<Rightarrow> row" where
  "credit_row w d =
     \<lparr>first_cell_headers = Some ''cc-date'', date_cell = Some ''Oct 21, 2025'', row_id = None,
      row_text = ''Oct 21, 2025AMAZON'', desc_divs = Some [''AMAZON''],
      cell_texts = [''Oct 21, 2025'', ''AMAZON''],
      credit_withdraw = w, credit_deposit = d, debit_withdraw = w, debit_deposit = d,
      balance_span = None\<rparr>"

text \<open>A chequing-account row (\<open>pda-date\<close>) with two description blocks and a withdrawal.\<close>

definition debit_row :: row where
  "debit_row =
     \<lparr>first_cell_headers = Some ''pda-date'', date_cell = Some ''Oct 21, 2025'', row_id = None,
      row_text = ''Oct 21, 2025Contactless Interac purchase - 5619TIM HORTONS$1,005.00'',
      desc_divs = Some [''Contactless Interac purchase - 5619'', ''TIM HORTONS''],
      cell_texts = [''Oct 21, 2025'', ''Contactless Interac purchase - 5619TIM HORTONS'',
                    ''$1,005.00'', []],
      credit_withdraw = Some ''$1,005.00'', credit_deposit = None,
      debit_withdraw = Some ''$1,005.00'', debit_deposit = None,
      balance_span = None\<rparr>"

definition empty_row :: row where
  "empty_row =
     \<lparr>first_cell_headers = None, date_cell = None, row_id = None, row_text = [],
      desc_divs = None, cell_texts = [], credit_withdraw = None, credit_deposit = None,
      debit_withdraw = None, debit_deposit = None, balance_span = None\<rparr>"

section \<open>The PDF processor: grouping text into lines\<close>

text \<open>
  A text item of a PDF page: its string and the vertical coordinate
  \<open>item.transform[5]\<close>.  A coordinate is a finite double, which is a rational number.
  Comparing two doubles and taking the absolute value of one are exact, and the sign of
  a difference of doubles is the sign of the exact difference; but the difference itself
  is rounded to a double.  The subtraction of doubles is therefore a parameter, \<open>fsub\<close>, of
  the functions that group items into lines.
\<close>

record text_item =
  item_str :: string
  item_y :: rat

text \<open>A line under construction, \<open>{ y, items }\<close>, and a finished line, \<open>{ text, y }\<close>.\<close>

type_synonym item_line = "rat \<times> text_item list"

record pdf_line =
  line_text :: string
  line_y :: rat

definition tolerance :: rat where
  "tolerance = 2"

text \<open>
  One turn of the loop over the items: the item joins the first line \<open>l\<close> with
  \<open>Math.abs(l.y - y) <= tolerance\<close>, or starts a new line at the end.
\<close>

fun place_item ::
  "(rat \<Rightarrow> rat \<Rightarrow> rat) \<Rightarrow> text_item \<Rightarrow> item_line list \<Rightarrow> item_line list" where
  "place_item fsub item [] = [(item_y item, [item])]"
| "place_item fsub item (l # ls) =
     (if \<bar>fsub (fst l) (item_y item)\<bar> \<le> tolerance then (fst l, snd l @ [item]) # ls
      else l # place_item fsub item ls)"

text \<open>\<open>lines.sort((a, b) => b.y - a.y)\<close> is a stable sort by descending \<open>y\<close>.\<close>

definition groupTextIntoLines :: "(rat \<Rightarrow> rat \<Rightarrow> rat) \<Rightarrow> text_item list \<Rightarrow> pdf_line list" where
  "groupTextIntoLines fsub textItems =
     (let lines = foldl (\<lambda>ls item. place_item fsub item ls) [] textItems;
          sorted = sort_key (\<lambda>l. - fst l) lines
      in map (\<lambda>l. \<lparr>line_text = join '' '' (map item_str (snd l)), line_y = fst l\<rparr>) sorted)"

section \<open>The PDF processor: parseTransactionLine\<close>

text \<open>
  \<open>\d{1,2}\/\d{1,2}\/\d{4}\<close>, \<open>[+-]?\$\d+\.\d{2}\<close>, \<open>[+-]?\d+\.\d{2}\<close>, and the month-name
  date \<open>(Jan|...|December)\s+\d{1,2},?\s+\d{4}\<close> whose month is capture group \<open>n\<close>.
\<close>

definition slashDate :: rx where
  "slashDate = seqs [d12, Ch (Lit CHR ''/''), d12, Ch (Lit CHR ''/''), d4]"

definition signedDollarAmount :: rx where
  "signedDollarAmount =
     seqs [Opt (Ch (Among ''+-'')), Ch (Lit CHR ''$''), Plus (Ch Digit), Ch (Lit CHR ''.''), d2]"

definition signedAmount :: rx where
  "signedAmount = seqs [Opt (Ch (Among ''+-'')), Plus (Ch Digit), Ch (Lit CHR ''.''), d2]"

definition monthDate :: "nat \<Rightarrow> rx" where
  "monthDate n =
     seqs [Grp n month_alt, Plus (Ch Space), d12, Opt (Ch (Lit CHR '','')), Plus (Ch Space), d4]"

text \<open>The six \<open>patterns\<close>, in order; the last three carry the \<open>i\<close> flag.\<close>

definition pdfPatterns :: "rx list" where
  "pdfPatterns =
     [seqs [Grp 1 slashDate, Plus (Ch Space), Grp 2 signedDollarAmount, Plus (Ch Space),
            Grp 3 (Plus (Ch Dot))],
      seqs [Grp 1 (PlusLazy (Ch Dot)), Plus (Ch Space), Grp 2 slashDate, Plus (Ch Space),
            Grp 3 signedDollarAmount],
      seqs [Grp 1 slashDate, Plus (Ch Space), Grp 2 (PlusLazy (Ch Dot)), Plus (Ch Space),
            Grp 3 signedAmount],
      seqs [Grp 1 (monthDate 2), Plus (Ch Space), Grp 3 signedDollarAmount, Plus (Ch Space),
            Grp 4 (Plus (Ch Dot))],
      seqs [Grp 1 (PlusLazy (Ch Dot)), Plus (Ch Space), Grp 2 (monthDate 3), Plus (Ch Space),
            Grp 4 signedDollarAmount],
      seqs [Grp 1 (monthDate 2), Plus (Ch Space), Grp 3 (PlusLazy (Ch Dot)), Plus (Ch Space),
            Grp 4 signedAmount]]"

text \<open>
  The record built from a matching line.  \<open>page\<close> is a number (\<open>line.y\<close>), the other
  properties are strings.
\<close>

record pdf_transaction =
  pdf_date :: string
  pdf_amount :: string
  pdf_description :: string
  pdf_source :: string
  pdf_page :: rat

text \<open>
  \<open>const [, date, amount, description] = match\<close> reads groups 1, 2 and 3 of the first
  pattern that matches, whatever that pattern captured there.
\<close>

definition parseTransactionLine ::
  "(string \<Rightarrow> string) \<Rightarrow> pdf_line \<Rightarrow> pdf_transaction option" where
  "parseTransactionLine toFixed2 line =
     (let text = trim (line_text line)
      in if text = [] then None
         else
           (case first_match pdfPatterns text of
              None \<Rightarrow> None
            | Some m \<Rightarrow>
                (let date = group m 1; amount = group m 2; description = group m 3
                 in Some \<lparr>pdf_date = normalizeDate date,
                          pdf_amount = normalizeAmount toFixed2 amount,
                          pdf_description = trim description,
                          pdf_source = ''PDF'',
                          pdf_page = line_y line\<rparr>)))"

section \<open>The PDF processor: parsePDFPage and extractTransactionsFromPDF\<close>

text \<open>\<open>for (const line of lines) { ...; if (transaction) transactions.push(transaction) }\<close>\<close>

fun push_parsed ::
  "(string \<Rightarrow> string) \<Rightarrow> pdf_transaction list \<Rightarrow> pdf_line list \<Rightarrow> pdf_transaction list" where
  "push_parsed toFixed2 transactions [] = transactions"
| "push_parsed toFixed2 transactions (line # lines) =
     (case parseTransactionLine toFixed2 line of
        None \<Rightarrow> push_parsed toFixed2 transactions lines
      | Some transaction \<Rightarrow> push_parsed toFixed2 (transactions @ [transaction]) lines)"

definition parsePDFPage ::
  "(string \<Rightarrow> string) \<Rightarrow> (rat \<Rightarrow> rat \<Rightarrow> rat) \<Rightarrow> text_item list \<Rightarrow> pdf_transaction list" where
  "parsePDFPage toFixed2 fsub textItems =
     push_parsed toFixed2 [] (groupTextIntoLines fsub textItems)"

text \<open>
  The page loop of \<open>extractTransactionsFromPDF\<close>, on the text items of each page:
  \<open>transactions.push(...pageTransactions)\<close>.
\<close>

fun extractPages ::
  "(string \<Rightarrow> string) \<Rightarrow> (rat \<Rightarrow> rat \<Rightarrow> rat) \<Rightarrow> pdf_transaction list \<Rightarrow> text_item list list
     \<Rightarrow> pdf_transaction list" where
  "extractPages toFixed2 fsub transactions [] = transactions"
| "extractPages toFixed2 fsub transactions (page # pages) =
     extractPages toFixed2 fsub (transactions @ parsePDFPage toFixed2 fsub page) pages"

text \<open>The errors that the PDF processor throws, and the message of each.\<close>

datatype pdf_error =
    AlreadyInProgress
  | NoDownloadedFile
  | DownloadFailed string
  | LibraryLoadFailed
  | LibraryUnavailable
  | ProcessingFailed string

fun error_message :: "pdf_error \<Rightarrow> string" where
  "error_message AlreadyInProgress = ''PDF processing already in progress''"
| "error_message NoDownloadedFile = ''Failed to download PDF file''"
| "error_message (DownloadFailed m) = ''Failed to download PDF: '' @ m"
| "error_message LibraryLoadFailed = ''Could not load PDF processing library''"
| "error_message LibraryUnavailable = ''PDF.js not available''"
| "error_message (ProcessingFailed m) = ''PDF processing failed: '' @ m"

text \<open>
  What PDF.js does for \<open>extractTransactionsFromPDF\<close>: the script fails to load, the
  library object is missing, opening the document or reading a page throws, or the
  pages come back with their text items.
\<close>

datatype pdf_load =
    ScriptFailed
  | NoLibrary
  | DocumentError string
  | Document "text_item list list"

definition extractTransactionsFromPDF ::
  "(string \<Rightarrow> string) \<Rightarrow> (rat \<Rightarrow> rat \<Rightarrow> rat) \<Rightarrow> pdf_load \<Rightarrow> pdf_error + pdf_transaction list" where
  "extractTransactionsFromPDF toFixed2 fsub loaded =
     (case loaded of
        ScriptFailed \<Rightarrow> Inl LibraryLoadFailed
      | NoLibrary \<Rightarrow> Inl LibraryUnavailable
      | DocumentError m \<Rightarrow> Inl (ProcessingFailed m)
      | Document pages \<Rightarrow> Inr (extractPages toFixed2 fsub [] pages))"

section \<open>transactionExtractor.js: the show-more load loops\<close>

text \<open>
  The page, as far as the load loops look at it: the text content of the elements that
  \<open>document.querySelectorAll\<close> returns for a selector (\<open>None\<close> when the call throws, as
  the DOM does on a selector that is not valid), whether \<open>findShowMoreButton\<close> finds a
  button, what clicking it does to the page (\<open>None\<close> when the click throws, which the
  loop's \<open>catch\<close> turns into a \<open>break\<close>), what \<open>getCurrentTransactionCount\<close> returns, and how
  the page changes while the extension sleeps for a number of milliseconds.
\<close>

record 'p source =
  querySelectorAll :: "'p \<Rightarrow> string \<Rightarrow> string list option"
  findShowMoreButton :: "'p \<Rightarrow> bool"
  click :: "'p \<Rightarrow> 'p option"
  getCurrentTransactionCount :: "'p \<Rightarrow> nat"
  sleep :: "nat \<Rightarrow> 'p \<Rightarrow> 'p"

subsection \<open>getRBCResultCount\<close>

definition resultSelectors :: "string list" where
  "resultSelectors =
     [''[class*=\"result\"]'', ''[class*=\"count\"]'', ''.rbc-result-count'',
      ''span:contains(\"results\")'', ''span:contains(\"found\")'',
      ''div:contains(\"found\")'', ''p:contains(\"found\")'']"

text \<open>\<open>\d{1,3}(?:,\d{3})*\<close>, and the pattern \<open>/(\d{1,3}(?:,\d{3})*)/\<close> of the first loop.\<close>

definition groupedNumber :: rx where
  "groupedNumber =
     Seq (Seq (Ch Digit) (Opt (Seq (Ch Digit) (Opt (Ch Digit)))))
         (Star (seqs [Ch (Lit CHR '',''), Ch Digit, Ch Digit, Ch Digit]))"

definition countPattern :: rx where
  "countPattern = Grp 1 groupedNumber"

text \<open>
  \<open>parseInt\<close> on the texts it receives here, which are digits only (group 1 of a match
  without its commas): the number that the leading digits write.  The result is a
  natural number; the source has a double, which is the same number up to 2^53 and
  positive beyond.
\<close>

definition digit_value :: "char \<Rightarrow> nat" where
  "digit_value c =
     (case map_of (zip ''0123456789'' [0, 1, 2, 3, 4, 5, 6, 7, 8, 9]) c of
        None \<Rightarrow> 0
      | Some v \<Rightarrow> v)"

definition parseInt :: "string \<Rightarrow> nat" where
  "parseInt s = foldl (\<lambda>n c. 10 * n + digit_value c) 0 (takeWhile is_digit s)"

text \<open>
  \<open>parseInt(countMatch[1].replace(/,/g, ''))\<close>, returned when it is positive; \<open>None\<close> when
  the loop goes on.
\<close>

definition positive_count :: "(nat \<times> string) list \<Rightarrow> nat option" where
  "positive_count countMatch =
     (let count = parseInt (strip_commas (group countMatch 1))
      in if count > 0 then Some count else None)"

text \<open>The loop over the elements of one selector: the first positive count.\<close>

fun count_in_elements :: "string list \<Rightarrow> nat option" where
  "count_in_elements [] = None"
| "count_in_elements (text # texts) =
     (case re_match countPattern text of
        None \<Rightarrow> count_in_elements texts
      | Some countMatch \<Rightarrow>
          (case positive_count countMatch of
             None \<Rightarrow> count_in_elements texts
           | Some count \<Rightarrow> Some count))"

text \<open>
  The loop over the selectors.  \<open>Inl\<close> is the \<open>SyntaxError\<close> that \<open>querySelectorAll\<close> throws;
  nothing in \<open>getRBCResultCount\<close> catches it.
\<close>

datatype dom_error = SyntaxError

fun count_in_selectors :: "'p source \<Rightarrow> 'p \<Rightarrow> string list \<Rightarrow> dom_error + nat option" where
  "count_in_selectors src p [] = Inr None"
| "count_in_selectors src p (selector # selectors) =
     (case querySelectorAll src p selector of
        None \<Rightarrow> Inl SyntaxError
      | Some elements \<Rightarrow>
          (case count_in_elements elements of
             None \<Rightarrow> count_in_selectors src p selectors
           | Some count \<Rightarrow> Inr (Some count)))"

text \<open>
  The fallback over all elements: \<open>/found\s+(\d{1,3}(?:,\d{3})*)/i\<close>,
  \<open>/(\d{1,3}(?:,\d{3})*)\s+results?/i\<close> and \<open>/(\d{1,3}(?:,\d{3})*)\s+transactions?/i\<close>, joined
  by \<open>||\<close>.
\<close>

definition fallbackPatterns :: "rx list" where
  "fallbackPatterns =
     [seqs [str_i ''found'', Plus (Ch Space), Grp 1 groupedNumber],
      seqs [Grp 1 groupedNumber, Plus (Ch Space), str_i ''result'', Opt (Ch (LitI CHR ''s''))],
      seqs [Grp 1 groupedNumber, Plus (Ch Space), str_i ''transaction'',
            Opt (Ch (LitI CHR ''s''))]]"

fun fallback_count :: "string list \<Rightarrow> nat option" where
  "fallback_count [] = None"
| "fallback_count (text # texts) =
     (case first_match fallbackPatterns text of
        None \<Rightarrow> fallback_count texts
      | Some countMatch \<Rightarrow>
          (case positive_count countMatch of
             None \<Rightarrow> fallback_count texts
           | Some count \<Rightarrow> Some count))"

definition getRBCResultCount :: "'p source \<Rightarrow> 'p \<Rightarrow> dom_error + nat" where
  "getRBCResultCount src p =
     (case count_in_selectors src p resultSelectors of
        Inl e \<Rightarrow> Inl e
      | Inr (Some count) \<Rightarrow> Inr count
      | Inr None \<Rightarrow>
          (case querySelectorAll src p ''*'' of
             None \<Rightarrow> Inl SyntaxError
           | Some allElements \<Rightarrow>
               (case fallback_count allElements of
                  None \<Rightarrow> Inr 0
                | Some count \<Rightarrow> Inr count)))"

subsection \<open>The loops\<close>

definition maxAttempts :: nat where
  "maxAttempts = 100"

definition maxWaitTime :: nat where
  "maxWaitTime = 15000"

text \<open>
  The inner loop of \<open>clickAllShowMoreButtonsWithProgress\<close>: every 500 ms, up to
  \<open>maxWaitTime\<close>, read the count again and leave as soon as it exceeds \<open>beforeCount\<close>.
  The result is the last \<open>afterCount\<close> and the page then.
\<close>

function poll :: "'p source \<Rightarrow> nat \<Rightarrow> nat \<Rightarrow> nat \<Rightarrow> 'p \<Rightarrow> nat \<times> 'p" where
  "poll src beforeCount waitTime afterCount p =
     (if waitTime < maxWaitTime then
        (let p' = sleep src 500 p;
             waitTime' = waitTime + 500;
             afterCount' = getCurrentTransactionCount src p'
         in if afterCount' > beforeCount then (afterCount', p')
            else poll src beforeCount waitTime' afterCount' p')
      else (afterCount, p))"
  by pat_completeness auto
termination
  by (relation "measure (\<lambda>(src, beforeCount, waitTime, afterCount, p). maxWaitTime - waitTime)")
     auto

declare poll.simps [simp del]

text \<open>
  The outer loop, from a given \<open>clickCount\<close>; the result is the final \<open>clickCount\<close>, the
  number of times the button was clicked, and the page.  The progress display and the
  load-time statistics do not influence the loop and are left out.
\<close>

function progress_loop :: "'p source \<Rightarrow> nat \<Rightarrow> 'p \<Rightarrow> nat \<times> 'p" where
  "progress_loop src clickCount p =
     (if clickCount < maxAttempts then
        (if \<not> findShowMoreButton src p then (clickCount, p)
         else
           (let beforeCount = getCurrentTransactionCount src p
            in case click src p of
                 None \<Rightarrow> (clickCount, p)
               | Some p1 \<Rightarrow>
                   (case poll src beforeCount 0 beforeCount p1 of
                      (afterCount, p2) \<Rightarrow>
                        if afterCount = beforeCount then (clickCount + 1, p2)
                        else progress_loop src (clickCount + 1) p2)))
      else (clickCount, p))"
  by pat_completeness auto
termination
  by (relation "measure (\<lambda>(src, clickCount, p). maxAttempts - clickCount)") auto

declare progress_loop.simps [simp del]

text \<open>
  \<open>clickAllShowMoreButtonsWithProgress\<close> asks for the result count first, outside any
  \<open>try\<close>: when that call throws, the function throws before its first click.  The
  count is only displayed (the display calls write to the elements of the extension's
  own popup when these exist); the loop does not depend on it.
\<close>

definition clickAllShowMoreButtonsWithProgress ::
  "'p source \<Rightarrow> 'p \<Rightarrow> dom_error + nat \<times> 'p" where
  "clickAllShowMoreButtonsWithProgress src p =
     (case getRBCResultCount src p of
        Inl e \<Rightarrow> Inl e
      | Inr totalExpected \<Rightarrow> Inr (progress_loop src 0 p))"

text \<open>
  \<open>clickAllShowMoreButtons\<close>: no result count is asked for, and after each click there is
  one fixed wait of 2 s in place of the polls.
\<close>

function plain_loop :: "'p source \<Rightarrow> nat \<Rightarrow> 'p \<Rightarrow> nat \<times> 'p" where
  "plain_loop src clickCount p =
     (if clickCount < maxAttempts then
        (if \<not> findShowMoreButton src p then (clickCount, p)
         else
           (let beforeCount = getCurrentTransactionCount src p
            in case click src p of
                 None \<Rightarrow> (clickCount, p)
               | Some p1 \<Rightarrow>
                   (let p2 = sleep src 2000 p1;
                        afterCount = getCurrentTransactionCount src p2
                    in if afterCount = beforeCount then (clickCount + 1, p2)
                       else plain_loop src (clickCount + 1) p2)))
      else (clickCount, p))"
  by pat_completeness auto
termination
  by (relation "measure (\<lambda>(src, clickCount, p). maxAttempts - clickCount)") auto

declare plain_loop.simps [simp del]

definition clickAllShowMoreButtons :: "'p source \<Rightarrow> 'p \<Rightarrow> nat \<times> 'p" where
  "clickAllShowMoreButtons src p = plain_loop src 0 p"

subsection \<open>Incremental sources\<close>

text \<open>
  A source is incremental when the count never falls, neither on a click nor while
  waiting.  \<open>first_growth src b p\<close> is the first of the 30 polls (one every 500 ms for
  15 s) after which the count on page \<open>p\<close> exceeds \<open>b\<close>, if there is one.
\<close>

definition incremental :: "'p source \<Rightarrow> bool" where
  "incremental src \<longleftrightarrow>
     (\<forall>p n. getCurrentTransactionCount src p \<le> getCurrentTransactionCount src (sleep src n p))
     \<and> (\<forall>p p'. click src p = Some p' \<longrightarrow>
           getCurrentTransactionCount src p \<le> getCurrentTransactionCount src p')"

definition first_growth :: "'p source \<Rightarrow> nat \<Rightarrow> 'p \<Rightarrow> nat option" where
  "first_growth src b p =
     find (\<lambda>i. getCurrentTransactionCount src ((sleep src 500 ^^ i) p) > b) [1..<31]"

text \<open>
  A simulated source.  The page is the number of rows shown, the number of clicks made,
  the rows that the clicks are still loading and the time in ms until they show.  The
  first \<open>g\<close> clicks load 25 rows each, which show \<open>lag\<close> ms later; later clicks load
  nothing.  \<open>banner\<close> holds the texts of the elements whose class contains \<open>result\<close>; as
  in a browser, a selector with the pseudo-class \<open>:contains\<close> is not valid.
\<close>

definition simulated :: "string list \<Rightarrow> nat \<Rightarrow> nat \<Rightarrow> (nat \<times> nat \<times> nat \<times> nat) source" where
  "simulated banner lag g =
     \<lparr>querySelectorAll =
        (\<lambda>p selector.
           if str_includes selector '':contains('' then None
           else if selector = ''[class*=\"result\"]'' \<or> selector = ''*'' then Some banner
           else Some []),
      findShowMoreButton = (\<lambda>p. True),
      click = (\<lambda>(shown, clicks, loading, due).
                 Some (shown, clicks + 1, loading + (if clicks < g then 25 else 0), lag)),
      getCurrentTransactionCount = (\<lambda>(shown, clicks, loading, due). shown),
      sleep = (\<lambda>n (shown, clicks, loading, due).
                 if due \<le> n then (shown + loading, clicks, 0, 0)
                 else (shown, clicks, loading, due - n))\<rparr>"

section \<open>The PDF processor: downloadAndProcessPDF and its busy flag\<close>

record processor =
  isProcessing :: bool

text \<open>The value of a successful call, \<open>{ success, transactions, filename }\<close>.\<close>

record 't pdf_result =
  success :: bool
  transactions :: "'t list"
  filename :: string

text \<open>
  An \<open>async\<close> function runs without interruption up to its first \<open>await\<close> and again from
  each \<open>await\<close> to the next.  \<open>downloadAndProcessPDF\<close> awaits \<open>downloadPDFFile\<close> and then
  \<open>extractTransactionsFromPDF\<close>; it touches the processor before the first and in its
  \<open>finally\<close> block.  The model has these two parts.

  \<open>enter\<close> is the part before the first \<open>await\<close>: the guard, which throws outside the
  \<open>try\<close> and so leaves the flag alone, then the setting of the flag.
\<close>

definition enter :: "processor \<Rightarrow> (pdf_error + unit) \<times> processor" where
  "enter pr =
     (if isProcessing pr then (Inl AlreadyInProgress, pr)
      else (Inr (), pr\<lparr>isProcessing := True\<rparr>))"

text \<open>
  \<open>settle\<close> is the rest, given what the two awaited calls did: \<open>downloadPDFFile\<close> threw or
  returned an object URL, \<open>extractTransactionsFromPDF\<close> threw or returned the
  transactions (the type of a transaction is left open here).  The \<open>catch\<close> rethrows, the
  \<open>finally\<close> clears the flag.
\<close>

definition settle ::
  "processor \<Rightarrow> string \<Rightarrow> pdf_error + string \<Rightarrow> pdf_error + 't list
     \<Rightarrow> (pdf_error + 't pdf_result) \<times> processor" where
  "settle pr name download extraction =
     ((case download of
         Inl e \<Rightarrow> Inl e
       | Inr downloadedFile \<Rightarrow>
           if downloadedFile = [] then Inl NoDownloadedFile
           else (case extraction of
                   Inl e \<Rightarrow> Inl e
                 | Inr ts \<Rightarrow> Inr \<lparr>success = True, transactions = ts, filename = name\<rparr>)),
      pr\<lparr>isProcessing := False\<rparr>)"

text \<open>A call that runs from start to end with nothing happening at its \<open>await\<close>s.\<close>

definition downloadAndProcessPDF ::
  "processor \<Rightarrow> string \<Rightarrow> pdf_error + string \<Rightarrow> pdf_error + 't list
     \<Rightarrow> (pdf_error + 't pdf_result) \<times> processor" where
  "downloadAndProcessPDF pr0 name download extraction =
     (case enter pr0 of
        (Inl e, pr) \<Rightarrow> (Inl e, pr)
      | (Inr u, pr) \<Rightarrow> settle pr name download extraction)"

subsection \<open>Requests arriving while another is in flight\<close>

text \<open>
  What can happen to a processor: a call arrives (with a request number and a file
  name), or the awaited work of a call in flight comes back.  The world is the
  processor, the calls in flight and the replies given so far, oldest first.
\<close>

datatype 't event =
    Call nat string
  | Back nat "pdf_error + string" "pdf_error + 't list"

record 't world =
  proc :: processor
  in_flight :: "(nat \<times> string) list"
  replies :: "(nat \<times> (pdf_error + 't pdf_result)) list"

definition idle :: "'t world" where
  "idle = \<lparr>proc = \<lparr>isProcessing = False\<rparr>, in_flight = [], replies = []\<rparr>"

fun step :: "'t world \<Rightarrow> 't event \<Rightarrow> 't world" where
  "step w (Call i name) =
     (case enter (proc w) of
        (Inl e, pr) \<Rightarrow> w\<lparr>proc := pr, replies := replies w @ [(i, Inl e)]\<rparr>
      | (Inr u, pr) \<Rightarrow> w\<lparr>proc := pr, in_flight := in_flight w @ [(i, name)]\<rparr>)"
| "step w (Back i download extraction) =
     (case map_of (in_flight w) i of
        None \<Rightarrow> w
      | Some name \<Rightarrow>
          (case settle (proc w) name download extraction of
             (res, pr) \<Rightarrow>
               w\<lparr>proc := pr,
                 in_flight := filter (\<lambda>c. fst c \<noteq> i) (in_flight w),
                 replies := replies w @ [(i, res)]\<rparr>))"

definition run :: "'t world \<Rightarrow> 't event list \<Rightarrow> 't world" where
  "run w events = foldl step w events"

section \<open>Verification\<close>

subsection \<open>Trimming\<close>

lemma trim_Nil: "trim [] = []"
  by (simp add: trim_def)

lemma trim_nonempty: "trim a \<noteq> [] \<Longrightarrow> a \<noteq> []"
  by (auto simp: trim_def)

lemma dropWhile_trim: "\<exists>w. dropWhile is_ws s = trim s @ w"
proof -
  have "rev (dropWhile is_ws (rev (dropWhile is_ws s)))
          @ rev (takeWhile is_ws (rev (dropWhile is_ws s))) = dropWhile is_ws s"
    by (metis rev_append rev_rev_ident takeWhile_dropWhile_id)
  then show ?thesis unfolding trim_def by metis
qed

lemma trim_first:
  assumes "trim s = c # cs"
  shows "\<exists>a r. s = a # r \<and> (is_ws a \<or> a = c)"
proof (cases s)
  case Nil
  with assms show ?thesis by (simp add: trim_def)
next
  case (Cons a r)
  show ?thesis
  proof (cases "is_ws a")
    case True
    with Cons show ?thesis by simp
  next
    case False
    obtain w where "dropWhile is_ws s = trim s @ w" using dropWhile_trim by blast
    with False Cons assms show ?thesis by simp
  qed
qed

subsection \<open>What the matcher consumes and captures\<close>

lemma ms_consumes:
  "t \<in> set (ms r s) \<Longrightarrow> \<exists>w. behind t = rev w @ behind s \<and> ahead s = w @ ahead t"
proof (induction r s arbitrary: t rule: ms.induct)
  case (1 k s)
  then show ?case by (auto split: list.splits if_splits)
next
  case (3 a b s)
  from "3.prems" obtain u where u: "u \<in> set (ms a s)" "t \<in> set (ms b u)" by auto
  from "3.IH"(1) [OF u(1)] obtain w1 where
    w1: "behind u = rev w1 @ behind s" "ahead s = w1 @ ahead u" by blast
  from "3.IH"(2) [OF u] obtain w2 where
    w2: "behind t = rev w2 @ behind u" "ahead u = w2 @ ahead t" by blast
  from w1 w2 show ?case by (intro exI [of _ "w1 @ w2"]) simp
next
  case (5 a s)
  show ?case
  proof (cases "t = s")
    case True
    then show ?thesis by simp
  next
    case False
    with "5.prems"(1) obtain u where
      u: "u \<in> set (filter (\<lambda>t. length (ahead t) < length (ahead s)) (ms a s))"
        "t \<in> set (ms (Star a) u)" by (subst (asm) ms.simps) auto
    then have ua: "u \<in> set (ms a s)" by simp
    from "5.IH"(1) [OF ua] obtain w1 where
      w1: "behind u = rev w1 @ behind s" "ahead s = w1 @ ahead u" by blast
    from "5.IH"(2) [OF u] obtain w2 where
      w2: "behind t = rev w2 @ behind u" "ahead u = w2 @ ahead t" by blast
    from w1 w2 show ?thesis by (intro exI [of _ "w1 @ w2"]) simp
  qed
next
  case (6 a s)
  show ?case
  proof (cases "t = s")
    case True
    then show ?thesis by simp
  next
    case False
    with "6.prems"(1) obtain u where
      u: "u \<in> set (filter (\<lambda>t. length (ahead t) < length (ahead s)) (ms a s))"
        "t \<in> set (ms (StarLazy a) u)" by (subst (asm) ms.simps) auto
    then have ua: "u \<in> set (ms a s)" by simp
    from "6.IH"(1) [OF ua] obtain w1 where
      w1: "behind u = rev w1 @ behind s" "ahead s = w1 @ ahead u" by blast
    from "6.IH"(2) [OF u] obtain w2 where
      w2: "behind t = rev w2 @ behind u" "ahead u = w2 @ ahead t" by blast
    from w1 w2 show ?thesis by (intro exI [of _ "w1 @ w2"]) simp
  qed
next
  case (7 n a s)
  then obtain u where "u \<in> set (ms a s)" "t = u\<lparr>caps := (n, consumed s u) # caps u\<rparr>"
    by auto
  with "7.IH" [of u] show ?case by simp
qed (auto split: if_splits)

lemma ms_no_longer:
  "t \<in> set (ms r s) \<Longrightarrow> length (ahead t) \<le> length (ahead s)"
  using ms_consumes [of t r s] by auto

lemma ms_progress:
  "\<not> nullable r \<Longrightarrow> t \<in> set (ms r s) \<Longrightarrow> length (ahead t) < length (ahead s)"
proof (induction r arbitrary: s t)
  case (Ch k)
  then show ?case by (cases "ahead s") (auto split: if_splits)
next
  case (Seq a b)
  from Seq.prems(2) obtain u where u: "u \<in> set (ms a s)" "t \<in> set (ms b u)" by auto
  show ?case
  proof (cases "nullable a")
    case False
    from Seq.IH(1) [OF False u(1)] ms_no_longer [OF u(2)] show ?thesis by simp
  next
    case True
    with Seq.prems(1) have "\<not> nullable b" by simp
    from Seq.IH(2) [OF this u(2)] ms_no_longer [OF u(1)] show ?thesis by simp
  qed
next
  case (Alt a b)
  then show ?case by auto
next
  case (Grp n a)
  from Grp.prems(2) obtain u where u: "u \<in> set (ms a s)" "ahead t = ahead u" by auto
  from Grp.prems(1) have "\<not> nullable a" by simp
  from Grp.IH [OF this u(1)] u(2) show ?case by simp
qed simp_all

lemma consumed_progress:
  assumes "t \<in> set (ms r s)" "\<not> nullable r"
  shows "consumed s t \<noteq> []"
proof -
  from ms_consumes [OF assms(1)] obtain w where
    w: "behind t = rev w @ behind s" "ahead s = w @ ahead t" by blast
  from ms_progress [OF assms(2,1)] w(2) have "w \<noteq> []" by auto
  moreover have "consumed s t = w" by (simp add: consumed_def w(1))
  ultimately show ?thesis by simp
qed

lemma ms_caps_other:
  "t \<in> set (ms r s) \<Longrightarrow> n \<notin> set (groups r) \<Longrightarrow> map_of (caps t) n = map_of (caps s) n"
proof (induction r s arbitrary: t rule: ms.induct)
  case (1 k s)
  then show ?case by (auto split: list.splits if_splits)
next
  case (3 a b s)
  from "3.prems" obtain u where u: "u \<in> set (ms a s)" "t \<in> set (ms b u)" by auto
  from "3.IH"(1) [OF u(1)] "3.IH"(2) [OF u] "3.prems"(2) show ?case by simp
next
  case (4 a b s)
  then show ?case by auto
next
  case (5 a s)
  show ?case
  proof (cases "t = s")
    case True
    then show ?thesis by simp
  next
    case False
    with "5.prems"(1) obtain u where
      u: "u \<in> set (filter (\<lambda>t. length (ahead t) < length (ahead s)) (ms a s))"
        "t \<in> set (ms (Star a) u)" by (subst (asm) ms.simps) auto
    then have ua: "u \<in> set (ms a s)" by simp
    from "5.IH"(1) [OF ua] "5.IH"(2) [OF u] "5.prems"(2) show ?thesis by simp
  qed
next
  case (6 a s)
  show ?case
  proof (cases "t = s")
    case True
    then show ?thesis by simp
  next
    case False
    with "6.prems"(1) obtain u where
      u: "u \<in> set (filter (\<lambda>t. length (ahead t) < length (ahead s)) (ms a s))"
        "t \<in> set (ms (StarLazy a) u)" by (subst (asm) ms.simps) auto
    then have ua: "u \<in> set (ms a s)" by simp
    from "6.IH"(1) [OF ua] "6.IH"(2) [OF u] "6.prems"(2) show ?thesis by simp
  qed
next
  case (7 m a s)
  then obtain u where "u \<in> set (ms a s)" "t = u\<lparr>caps := (m, consumed s u) # caps u\<rparr>"
    by auto
  with "7.IH" [of u] "7.prems"(2) show ?case by simp
qed (auto split: if_splits)

lemma ms_captures:
  "captures r n \<Longrightarrow> t \<in> set (ms r s) \<Longrightarrow> \<exists>g. map_of (caps t) n = Some g \<and> g \<noteq> []"
proof (induction r arbitrary: s t)
  case (Seq a b)
  from Seq.prems(2) obtain u where u: "u \<in> set (ms a s)" "t \<in> set (ms b u)" by auto
  show ?case
  proof (cases "captures b n")
    case True
    from Seq.IH(2) [OF True u(2)] show ?thesis .
  next
    case False
    with Seq.prems(1) have a: "captures a n" "n \<notin> set (groups b)" by auto
    from Seq.IH(1) [OF a(1) u(1)] ms_caps_other [OF u(2) a(2)] show ?thesis by simp
  qed
next
  case (Alt a b)
  then show ?case by auto
next
  case (Grp m a)
  from Grp.prems(2) obtain u where
    u: "u \<in> set (ms a s)" "t = u\<lparr>caps := (m, consumed s u) # caps u\<rparr>" by auto
  show ?case
  proof (cases "m = n")
    case True
    with Grp.prems(1) have "\<not> nullable a" by simp
    from consumed_progress [OF u(1) this] True u(2) show ?thesis by simp
  next
    case False
    with Grp.prems(1) have "captures a n" by simp
    from Grp.IH [OF this u(1)] False u(2) show ?thesis by simp
  qed
qed simp_all

lemma search_from_mem:
  "search_from r p s = Some (s0, t) \<Longrightarrow> t \<in> set (ms r s0)"
  by (induction s arbitrary: p) (auto split: list.splits)

lemma re_match_captures:
  assumes "captures r n" "n \<noteq> 0" "re_match r s = Some m"
  shows "group m n \<noteq> []"
proof -
  from assms(3) obtain s0 t where
    st: "search_from r [] s = Some (s0, t)" and m: "m = (0, consumed s0 t) # caps t"
    by (auto simp: re_match_def split: option.splits)
  from ms_captures [OF assms(1) search_from_mem [OF st]] assms(2) m show ?thesis
    by (auto simp: group_def text_of_def)
qed

lemma first_match_mem:
  "first_match ps s = Some m \<Longrightarrow> \<exists>p \<in> set ps. re_match p s = Some m"
  by (induction ps) (auto split: option.splits)

subsection \<open>Anchored patterns\<close>

lemma search_from_Bol_later:
  "p \<noteq> [] \<Longrightarrow> search_from (Seq Bol r) p s = None"
  by (induction s arbitrary: p) simp_all

lemma re_test_Bol:
  assumes "re_test (Seq Bol r) s"
  shows "ms r \<lparr>behind = [], ahead = s, caps = []\<rparr> \<noteq> []"
proof (cases s)
  case Nil
  with assms show ?thesis
    by (auto simp: re_test_def re_match_def split: list.splits)
next
  case (Cons c cs)
  with assms search_from_Bol_later [of "[c]" r cs] show ?thesis
    by (auto simp: re_test_def re_match_def split: list.splits)
qed

lemma ms_Lit_first:
  assumes "ms (Seq (Ch (Lit c)) r) st \<noteq> []"
  shows "\<exists>cs. ahead st = c # cs"
  using assms by (cases "ahead st") (auto split: if_splits)

subsection \<open>The groups the source reads are always captured\<close>

lemma date_patterns_capture:
  "list_all (\<lambda>p. captures p 1 \<and> captures p 2 \<and> captures p 3)
     [monthNamePattern, mmddyyyyPattern, mmddyyyyDashPattern, yyyymmddPattern]"
  by code_simp

lemma pdfPatterns_capture:
  "list_all (\<lambda>p. captures p 1 \<and> captures p 2 \<and> captures p 3) pdfPatterns"
  by code_simp

lemma rowIdDatePattern_captures: "captures rowIdDatePattern 1"
  by code_simp

subsection \<open>The validator in closed form\<close>

lemma hasDescription_eq:
  "hasDescription t \<longleftrightarrow> length (trim (text_of (fld t ''description''))) > 2"
  by (cases "fld t ''description''") (auto simp: hasDescription_def text_of_def trim_Nil)

lemma hasAmount_eq:
  "hasAmount t \<longleftrightarrow> trim (text_of (fld t ''amount'')) \<noteq> []"
  by (cases "fld t ''amount''") (auto simp: hasAmount_def text_of_def trim_Nil)

lemma isValidTransaction_Some:
  "isValidTransaction (Some t) \<longleftrightarrow>
      length (trim (text_of (fld t ''description''))) > 2
      \<or> trim (text_of (fld t ''amount'')) \<noteq> []"
  by (simp add: isValidTransaction_def hasDescription_eq hasAmount_eq)

lemma fld_without_date:
  "k \<noteq> ''date'' \<Longrightarrow> fld (filter (\<lambda>kv. fst kv \<noteq> ''date'') t) k = fld t k"
  by (induction t) (auto simp: fld_def)

subsection \<open>Credit rows: the sign of the amount\<close>

lemma fld_amount:
  "fld (parseRBCTransactionRow r) ''amount'' = Some (row_amount r (accountType_of r))"
  by (cases "row_description r (accountType_of r)")
     (simp add: parseRBCTransactionRow_def Let_def fld_def)

lemma leading_minus_removed:
  "re_replace leadingMinusPattern [] d =
     (if startsWith d ''-$'' then drop 2 d else if startsWith d ''-'' then drop 1 d else d)"
proof (cases d)
  case Nil
  then show ?thesis
    by (simp add: re_replace_def leadingMinusPattern_def startsWith_def)
next
  case (Cons c cs)
  show ?thesis
  proof (cases "c = CHR ''-''")
    case False
    with Cons search_from_Bol_later [of "[c]" _ cs] show ?thesis
      by (simp add: re_replace_def leadingMinusPattern_def startsWith_def)
  next
    case True
    with Cons show ?thesis
      by (cases cs) (simp_all add: re_replace_def leadingMinusPattern_def startsWith_def Opt_def)
  qed
qed

lemma credit_withdraw_amount:
  assumes "accountType_of r = ''credit''" "populated (credit_withdraw r)"
  shows "row_amount r (accountType_of r) =
           (if startsWith (trim (text_of (credit_withdraw r))) ''$''
            then ''-'' @ trim (text_of (credit_withdraw r))
            else ''-$'' @ trim (text_of (credit_withdraw r)))"
  using assms by (simp add: row_amount_def column_amount_def Let_def)

lemma credit_deposit_amount:
  assumes "accountType_of r = ''credit''" "\<not> populated (credit_withdraw r)"
    "populated (credit_deposit r)"
  shows "row_amount r (accountType_of r) =
           (if startsWith (re_replace leadingMinusPattern [] (trim (text_of (credit_deposit r)))) ''$''
            then re_replace leadingMinusPattern [] (trim (text_of (credit_deposit r)))
            else ''$'' @ re_replace leadingMinusPattern [] (trim (text_of (credit_deposit r))))"
  using assms by (simp add: row_amount_def column_amount_def Let_def startsWith_def)

text \<open>
  Claim C1, as amended.  For every credit row parsed by \<open>parseRBCTransactionRow\<close>: if the
  withdraw column holds a non-blank text \<open>w\<close> (trimmed), the amount is \<open>-\<close> followed by
  \<open>w\<close> when \<open>w\<close> starts with a dollar sign and \<open>-$\<close> followed by \<open>w\<close> otherwise, the minus
  sign being prefixed whether or not \<open>w\<close> already has one; if instead the deposit column
  holds a non-blank text \<open>d\<close>, the amount is \<open>d\<close> without one leading \<open>-$\<close> or \<open>-\<close>, with a
  dollar sign put in front unless it starts with one.  Withdraw text \<open>50.00\<close> gives
  \<open>-$50.00\<close> and deposit text \<open>-$75.00\<close> gives \<open>$75.00\<close>.
\<close>

theorem credit_row_amount_polarity:
  assumes "accountType_of r = ''credit''"
  shows "(populated (credit_withdraw r) \<longrightarrow>
            fld (parseRBCTransactionRow r) ''amount'' =
              Some (let w = trim (text_of (credit_withdraw r))
                    in if startsWith w ''$'' then ''-'' @ w else ''-$'' @ w))
         \<and> (\<not> populated (credit_withdraw r) \<and> populated (credit_deposit r) \<longrightarrow>
            fld (parseRBCTransactionRow r) ''amount'' =
              Some (let d = trim (text_of (credit_deposit r));
                        c = (if startsWith d ''-$'' then drop 2 d
                             else if startsWith d ''-'' then drop 1 d else d)
                    in if startsWith c ''$'' then c else ''$'' @ c))"
  using assms credit_withdraw_amount [of r] credit_deposit_amount [of r]
  by (auto simp: fld_amount Let_def leading_minus_removed)

theorem credit_row_amount_polarity_witness:
  "accountType_of (credit_row (Some ''50.00'') None) = ''credit''
   \<and> populated (credit_withdraw (credit_row (Some ''50.00'') None))
   \<and> fld (parseRBCTransactionRow (credit_row (Some ''50.00'') None)) ''amount''
       = Some ''-$50.00''
   \<and> accountType_of (credit_row None (Some ''-$75.00'')) = ''credit''
   \<and> \<not> populated (credit_withdraw (credit_row None (Some ''-$75.00'')))
   \<and> populated (credit_deposit (credit_row None (Some ''-$75.00'')))
   \<and> fld (parseRBCTransactionRow (credit_row None (Some ''-$75.00''))) ''amount''
       = Some ''$75.00''"
proof -
  have a: "accountType_of (credit_row (Some ''50.00'') None) = ''credit''"
    "accountType_of (credit_row None (Some ''-$75.00'')) = ''credit''"
    by code_simp+
  have p: "populated (credit_withdraw (credit_row (Some ''50.00'') None))"
    "\<not> populated (credit_withdraw (credit_row None (Some ''-$75.00'')))"
    "populated (credit_deposit (credit_row None (Some ''-$75.00'')))"
    by code_simp+
  have w: "trim (text_of (credit_withdraw (credit_row (Some ''50.00'') None))) = ''50.00''"
    "trim (text_of (credit_deposit (credit_row None (Some ''-$75.00'')))) = ''-$75.00''"
    by code_simp+
  from credit_row_amount_polarity [OF a(1)] credit_row_amount_polarity [OF a(2)] a p w
  show ?thesis by (simp add: startsWith_def)
qed

text \<open>
  The claim as first stated has the minus sign prefixed only if the text has none.  A
  withdraw text that already carries its sign, \<open>-50.00\<close>, gets a second one: the amount
  is \<open>-$-50.00\<close>, neither \<open>-50.00\<close> nor \<open>-$50.00\<close>.
\<close>

theorem credit_withdraw_sign_counterexample:
  "accountType_of (credit_row (Some ''-50.00'') None) = ''credit''
   \<and> populated (credit_withdraw (credit_row (Some ''-50.00'') None))
   \<and> startsWith (trim (text_of (credit_withdraw (credit_row (Some ''-50.00'') None)))) ''-''
   \<and> fld (parseRBCTransactionRow (credit_row (Some ''-50.00'') None)) ''amount''
       = Some ''-$-50.00''
   \<and> fld (parseRBCTransactionRow (credit_row (Some ''-50.00'') None)) ''amount''
       \<noteq> Some ''-50.00''
   \<and> fld (parseRBCTransactionRow (credit_row (Some ''-50.00'') None)) ''amount''
       \<noteq> Some ''-$50.00''"
proof -
  have a: "accountType_of (credit_row (Some ''-50.00'') None) = ''credit''" by code_simp
  have p: "populated (credit_withdraw (credit_row (Some ''-50.00'') None))" by code_simp
  have s: "startsWith (trim (text_of (credit_withdraw (credit_row (Some ''-50.00'') None)))) ''-''"
    by code_simp
  have v: "fld (parseRBCTransactionRow (credit_row (Some ''-50.00'') None)) ''amount''
       = Some ''-$-50.00''" by code_simp
  from a p s v show ?thesis by simp
qed

subsection \<open>Which columns the serializer writes\<close>

lemma convertToCSV_Nil: "convertToCSV [] = []"
  by (simp add: convertToCSV_def)

lemma has_data_iff:
  "has_data ts h \<longleftrightarrow> (\<exists>t \<in> set ts. text_of (fld t h) \<noteq> [])"
  by (auto simp: has_data_def list_ex_iff text_of_def split: option.splits)

lemma csv_columns_iff:
  "h \<in> set (csv_columns ts) \<longleftrightarrow>
     h \<in> set orderedHeaders \<and> (\<exists>t \<in> set ts. text_of (fld t h) \<noteq> [])"
  by (auto simp: csv_columns_def has_data_iff)

lemma csv_columns_order: "subseq (csv_columns ts) orderedHeaders"
  by (simp add: csv_columns_def subseq_filter_left)

lemma csv_columns_insertion_order:
  "set ts = set ts' \<Longrightarrow> csv_columns ts = csv_columns ts'"
  by (simp add: csv_columns_def has_data_iff cong: filter_cong)

lemma type_not_a_column: "''type'' \<notin> set (csv_columns ts)"
  by (simp add: csv_columns_iff orderedHeaders_def)

lemma parse_debit_row:
  "parseRBCTransactionRow debit_row =
     [(''date'', ''21/10/2025''), (''description'', ''Contactless Interac purchase - 5619''),
      (''vendor'', ''TIM HORTONS''), (''amount'', ''$1,005.00''), (''type'', ''Interac''),
      (''balance'', []), (''reference'', []), (''accountType'', ''debit'')]"
  by code_simp

text \<open>
  Claim C2.  The columns written are the canonical list filtered by "some record has
  a non-empty value", in canonical order and whatever the order of the records
  (\<open>csv_columns_iff\<close>, \<open>csv_columns_order\<close>, \<open>csv_columns_insertion_order\<close>), and the empty
  list gives the empty string (\<open>convertToCSV_Nil\<close>).  The canonical list of
  csvExporter.js has no \<open>type\<close> entry, though: the record parsed from a chequing row
  has the type \<open>Interac\<close> and is written without a Type column, and no list of records
  ever gets one.
\<close>

theorem convertToCSV_drops_type:
  "fld (parseRBCTransactionRow debit_row) ''type'' = Some ''Interac''
   \<and> convertToCSV [parseRBCTransactionRow debit_row]
     = ''Date,Account Type,Description,Vendor/Payee,Amount'' @ [newline]
       @ [dquote] @ ''21/10/2025'' @ [dquote]
       @ '',debit,Contactless Interac purchase - 5619,TIM HORTONS,$1005.00''
   \<and> ''type'' \<notin> set (csv_columns ts)"
proof -
  have "fld (parseRBCTransactionRow debit_row) ''type'' = Some ''Interac''"
    by (simp add: parse_debit_row fld_def)
  moreover have "convertToCSV [parseRBCTransactionRow debit_row]
     = ''Date,Account Type,Description,Vendor/Payee,Amount'' @ [newline]
       @ [dquote] @ ''21/10/2025'' @ [dquote]
       @ '',debit,Contactless Interac purchase - 5619,TIM HORTONS,$1005.00''"
    unfolding parse_debit_row by code_simp
  ultimately show ?thesis using type_not_a_column by simp
qed

subsection \<open>Records kept by an extraction pass\<close>

lemma pdfPatterns_capture_2: "\<forall>p \<in> set pdfPatterns. captures p 2"
  using pdfPatterns_capture by (simp add: list_all_iff)

lemma normalizeAmount_nonempty:
  "(\<And>num. toFixed2 num \<noteq> []) \<Longrightarrow> a \<noteq> [] \<Longrightarrow> normalizeAmount toFixed2 a \<noteq> []"
  by (simp add: normalizeAmount_def split: option.splits)

lemma parseTransactionLine_amount:
  assumes "\<And>num. toFixed2 num \<noteq> []" "parseTransactionLine toFixed2 line = Some t"
  shows "pdf_amount t \<noteq> []"
proof -
  from assms(2) obtain m where
    m: "first_match pdfPatterns (trim (line_text line)) = Some m"
    and t: "pdf_amount t = normalizeAmount toFixed2 (group m 2)"
    by (auto simp: parseTransactionLine_def Let_def split: if_splits option.splits)
  from first_match_mem [OF m] obtain p where
    "p \<in> set pdfPatterns" "re_match p (trim (line_text line)) = Some m" by blast
  with pdfPatterns_capture_2 have "group m 2 \<noteq> []"
    using re_match_captures [of p 2] by simp
  with normalizeAmount_nonempty [OF assms(1)] t show ?thesis by simp
qed

lemma push_parsed_set:
  "set (push_parsed toFixed2 acc lines)
     = set acc \<union> {t. \<exists>l \<in> set lines. parseTransactionLine toFixed2 l = Some t}"
  by (induction lines arbitrary: acc) (auto split: option.splits)

lemma extractPages_set:
  "set (extractPages toFixed2 fsub acc pages)
     = set acc \<union> (\<Union>page \<in> set pages. set (parsePDFPage toFixed2 fsub page))"
  by (induction pages arbitrary: acc) auto

lemma extractFromRBCTransactionRows_filter:
  "extractFromRBCTransactionRows ts rows
     = ts @ filter (\<lambda>t. isValidTransaction (Some t)) (map parseRBCTransactionRow rows)"
  by (induction rows arbitrary: ts) (simp_all add: Let_def)

text \<open>
  Claim C3.  Every record returned by a pass over table rows (\<open>this.transactions\<close> is
  empty when the pass starts) and every record returned by a pass over the pages of a
  PDF has a description whose trimmed length exceeds 2 or a non-empty amount.  On the
  row path this is the validator at work: a parsed row that fails both tests is not
  pushed.  On the PDF path no validator is called; there the amount is group 2 of the
  matching pattern passed through \<open>normalizeAmount\<close>, which is never empty, given that
  \<open>toFixed\<close> never prints the empty string.
\<close>

theorem extraction_keeps_nontrivial_records:
  "(\<forall>t \<in> set (extractFromRBCTransactionRows [] rows).
      length (trim (text_of (fld t ''description''))) > 2 \<or> text_of (fld t ''amount'') \<noteq> [])
   \<and> (\<not> length (trim (text_of (fld (parseRBCTransactionRow r) ''description''))) > 2
        \<and> text_of (fld (parseRBCTransactionRow r) ''amount'') = []
        \<longrightarrow> extractFromRBCTransactionRows ts (r # rows)
              = extractFromRBCTransactionRows ts rows)
   \<and> ((\<forall>num. toFixed2 num \<noteq> []) \<and> extractTransactionsFromPDF toFixed2 fsub loaded = Inr found
        \<longrightarrow> (\<forall>t \<in> set found.
              length (trim (pdf_description t)) > 2 \<or> pdf_amount t \<noteq> []))"
proof -
  have web: "\<forall>t \<in> set (extractFromRBCTransactionRows [] rows).
      length (trim (text_of (fld t ''description''))) > 2 \<or> text_of (fld t ''amount'') \<noteq> []"
    using trim_nonempty
    by (auto simp: extractFromRBCTransactionRows_filter isValidTransaction_Some)
  have drop: "\<not> length (trim (text_of (fld (parseRBCTransactionRow r) ''description''))) > 2
        \<and> text_of (fld (parseRBCTransactionRow r) ''amount'') = []
        \<longrightarrow> extractFromRBCTransactionRows ts (r # rows)
              = extractFromRBCTransactionRows ts rows"
    by (auto simp: isValidTransaction_Some trim_Nil Let_def)
  have pdf: "\<forall>t \<in> set found.
           length (trim (pdf_description t)) > 2 \<or> pdf_amount t \<noteq> []"
    if "\<forall>num. toFixed2 num \<noteq> []" "extractTransactionsFromPDF toFixed2 fsub loaded = Inr found"
  proof -
    from that(2) obtain pages where "found = extractPages toFixed2 fsub [] pages"
      by (auto simp: extractTransactionsFromPDF_def split: pdf_load.splits)
    with that(1) parseTransactionLine_amount [of toFixed2] show ?thesis
      by (auto simp: extractPages_set parsePDFPage_def push_parsed_set)
  qed
  from web drop pdf show ?thesis by blast
qed

theorem extraction_keeps_nontrivial_records_witness:
  "extractFromRBCTransactionRows [] [credit_row (Some ''50.00'') None, empty_row]
     = [parseRBCTransactionRow (credit_row (Some ''50.00'') None)]
   \<and> text_of (fld (parseRBCTransactionRow (credit_row (Some ''50.00'') None)) ''amount'')
       = ''-$50.00''
   \<and> \<not> length (trim (text_of (fld (parseRBCTransactionRow empty_row) ''description''))) > 2
   \<and> text_of (fld (parseRBCTransactionRow empty_row) ''amount'') = []
   \<and> (\<lambda>num. ''12.34'') ''12.34'' \<noteq> ''''
   \<and> extractTransactionsFromPDF (\<lambda>num. ''12.34'') (\<lambda>a b. a - b)
        (Document [[\<lparr>item_str = ''1/2/2025'', item_y = 700\<rparr>, \<lparr>item_str = ''$12.34'', item_y = 700\<rparr>,
          \<lparr>item_str = ''TEA'', item_y = 701\<rparr>, \<lparr>item_str = ''Page 1'', item_y = 20\<rparr>]])
       = Inr [\<lparr>pdf_date = ''02/01/2025'', pdf_amount = ''12.34'', pdf_description = ''TEA'',
           pdf_source = ''PDF'', pdf_page = 700\<rparr>]"
proof -
  have a: "extractFromRBCTransactionRows [] [credit_row (Some ''50.00'') None, empty_row]
     = [parseRBCTransactionRow (credit_row (Some ''50.00'') None)]" by code_simp
  have b: "text_of (fld (parseRBCTransactionRow (credit_row (Some ''50.00'') None)) ''amount'')
       = ''-$50.00''" by code_simp
  have c: "\<not> length (trim (text_of (fld (parseRBCTransactionRow empty_row) ''description''))) > 2"
    "text_of (fld (parseRBCTransactionRow empty_row) ''amount'') = []"
    by code_simp+
  have d: "extractTransactionsFromPDF (\<lambda>num. ''12.34'') (\<lambda>a b. a - b)
        (Document [[\<lparr>item_str = ''1/2/2025'', item_y = 700\<rparr>, \<lparr>item_str = ''$12.34'', item_y = 700\<rparr>,
          \<lparr>item_str = ''TEA'', item_y = 701\<rparr>, \<lparr>item_str = ''Page 1'', item_y = 20\<rparr>]])
       = Inr [\<lparr>pdf_date = ''02/01/2025'', pdf_amount = ''12.34'', pdf_description = ''TEA'',
           pdf_source = ''PDF'', pdf_page = 700\<rparr>]" by code_simp
  from extraction_keeps_nontrivial_records
    [of "[credit_row (Some ''50.00'') None, empty_row]" empty_row "[]"
        "\<lambda>num. ''12.34''" "\<lambda>a b. a - b"
        "Document [[\<lparr>item_str = ''1/2/2025'', item_y = 700\<rparr>, \<lparr>item_str = ''$12.34'', item_y = 700\<rparr>,
          \<lparr>item_str = ''TEA'', item_y = 701\<rparr>, \<lparr>item_str = ''Page 1'', item_y = 20\<rparr>]]"
        "[\<lparr>pdf_date = ''02/01/2025'', pdf_amount = ''12.34'', pdf_description = ''TEA'',
           pdf_source = ''PDF'', pdf_page = 700\<rparr>]"]
    a b c d
  show ?thesis by simp
qed

subsection \<open>Date normalisation\<close>

lemma re_match_Bol:
  "re_match (Seq Bol r) s =
     (case ms r \<lparr>behind = [], ahead = s, caps = []\<rparr> of
        [] \<Rightarrow> None
      | t # _ \<Rightarrow> Some ((0, rev (behind t)) # caps t))"
  by (cases s) (simp_all add: re_match_def search_from_Bol_later consumed_def split: list.splits)

lemma digit_not: "is_digit c \<Longrightarrow> \<not> is_digit l \<Longrightarrow> (c = l) = False"
  by auto

lemma digit_not_ws: "is_digit c \<Longrightarrow> is_ws c = False"
  by (auto simp: is_digit_def is_ws_def)

lemma not_digit_lits:
  "\<not> is_digit CHR ''/''" "\<not> is_digit CHR ''-''" "\<not> is_digit CHR '',''"
  by (simp_all add: is_digit_def)

lemma trim_id:
  assumes "s \<noteq> []" "\<not> is_ws (hd s)" "\<not> is_ws (last s)"
  shows "trim s = s"
proof -
  have "dropWhile is_ws s = s" using assms(2) by (simp add: dropWhile_eq_self_iff)
  moreover have "dropWhile is_ws (rev s) = rev s"
    using assms(3) by (simp add: dropWhile_eq_self_iff hd_rev)
  ultimately show ?thesis by (simp add: trim_def)
qed

lemma digits_1_2:
  assumes "list_all is_digit d" "length d = 1 \<or> length d = 2"
  obtains a where "d = [a]" "is_digit a" | a b where "d = [a, b]" "is_digit a" "is_digit b"
  using assms by (cases d; cases "tl d"; cases "tl (tl d)") auto

lemma digits_4:
  assumes "list_all is_digit y" "length y = 4"
  obtains a b c e where "y = [a, b, c, e]" "is_digit a" "is_digit b" "is_digit c" "is_digit e"
  using assms by (cases y; cases "tl y"; cases "tl (tl y)"; cases "tl (tl (tl y))"; cases "tl (tl (tl (tl y)))") auto

lemma digit_upper: "is_digit c \<Longrightarrow> upper_char c = c"
  unfolding is_digit_def
  by (elim disjE | simp add: upper_char_def lower_letters_def upper_letters_def)+

lemma LitI_digit:
  "is_digit c \<Longrightarrow> \<not> is_digit (upper_char l) \<Longrightarrow> cc_match (LitI l) c = False"
  by (auto simp: digit_upper)

lemma month_initials:
  "\<not> is_digit (upper_char CHR ''J'')" "\<not> is_digit (upper_char CHR ''F'')"
  "\<not> is_digit (upper_char CHR ''M'')" "\<not> is_digit (upper_char CHR ''A'')"
  "\<not> is_digit (upper_char CHR ''S'')" "\<not> is_digit (upper_char CHR ''O'')"
  "\<not> is_digit (upper_char CHR ''N'')" "\<not> is_digit (upper_char CHR ''D'')"
  by (simp_all add: is_digit_def upper_char_def lower_letters_def upper_letters_def)

lemma month_alt_digit:
  "is_digit c \<Longrightarrow> ms month_alt \<lparr>behind = p, ahead = c # cs, caps = k\<rparr> = []"
  by (simp add: month_alt_def month_names_def str_i_def LitI_digit month_initials
        del: cc_match.simps)

lemma monthNamePattern_digit:
  "is_digit c \<Longrightarrow> re_match monthNamePattern (c # cs) = None"
  by (simp add: monthNamePattern_def re_match_Bol month_alt_digit)

lemma ws_lits:
  "\<not> is_digit CHR 0x09" "\<not> is_digit CHR 0x0A" "\<not> is_digit CHR 0x0B" "\<not> is_digit CHR 0x0C"
  "\<not> is_digit CHR 0x0D" "\<not> is_digit CHR 0x20" "\<not> is_digit CHR 0xA0"
  by (simp_all add: is_digit_def)

lemma upper_char_letters:
  "upper_char CHR ''A'' = CHR ''A''" "upper_char CHR ''B'' = CHR ''B''" "upper_char CHR ''C'' = CHR ''C''"
  "upper_char CHR ''D'' = CHR ''D''" "upper_char CHR ''E'' = CHR ''E''" "upper_char CHR ''F'' = CHR ''F''"
  "upper_char CHR ''G'' = CHR ''G''" "upper_char CHR ''H'' = CHR ''H''" "upper_char CHR ''I'' = CHR ''I''"
  "upper_char CHR ''J'' = CHR ''J''" "upper_char CHR ''K'' = CHR ''K''" "upper_char CHR ''L'' = CHR ''L''"
  "upper_char CHR ''M'' = CHR ''M''" "upper_char CHR ''N'' = CHR ''N''" "upper_char CHR ''O'' = CHR ''O''"
  "upper_char CHR ''P'' = CHR ''P''" "upper_char CHR ''Q'' = CHR ''Q''" "upper_char CHR ''R'' = CHR ''R''"
  "upper_char CHR ''S'' = CHR ''S''" "upper_char CHR ''T'' = CHR ''T''" "upper_char CHR ''U'' = CHR ''U''"
  "upper_char CHR ''V'' = CHR ''V''" "upper_char CHR ''W'' = CHR ''W''" "upper_char CHR ''X'' = CHR ''X''"
  "upper_char CHR ''Y'' = CHR ''Y''" "upper_char CHR ''Z'' = CHR ''Z''" "upper_char CHR ''a'' = CHR ''A''"
  "upper_char CHR ''b'' = CHR ''B''" "upper_char CHR ''c'' = CHR ''C''" "upper_char CHR ''d'' = CHR ''D''"
  "upper_char CHR ''e'' = CHR ''E''" "upper_char CHR ''f'' = CHR ''F''" "upper_char CHR ''g'' = CHR ''G''"
  "upper_char CHR ''h'' = CHR ''H''" "upper_char CHR ''i'' = CHR ''I''" "upper_char CHR ''j'' = CHR ''J''"
  "upper_char CHR ''k'' = CHR ''K''" "upper_char CHR ''l'' = CHR ''L''" "upper_char CHR ''m'' = CHR ''M''"
  "upper_char CHR ''n'' = CHR ''N''" "upper_char CHR ''o'' = CHR ''O''" "upper_char CHR ''p'' = CHR ''P''"
  "upper_char CHR ''q'' = CHR ''Q''" "upper_char CHR ''r'' = CHR ''R''" "upper_char CHR ''s'' = CHR ''S''"
  "upper_char CHR ''t'' = CHR ''T''" "upper_char CHR ''u'' = CHR ''U''" "upper_char CHR ''v'' = CHR ''V''"
  "upper_char CHR ''w'' = CHR ''W''" "upper_char CHR ''x'' = CHR ''X''" "upper_char CHR ''y'' = CHR ''Y''"
  "upper_char CHR ''z'' = CHR ''Z''" "upper_char CHR '' '' = CHR '' ''"
  by (simp_all add: upper_char_def lower_letters_def upper_letters_def)

lemma lower_char_letters:
  "lower_char CHR ''A'' = CHR ''a''" "lower_char CHR ''B'' = CHR ''b''" "lower_char CHR ''C'' = CHR ''c''"
  "lower_char CHR ''D'' = CHR ''d''" "lower_char CHR ''E'' = CHR ''e''" "lower_char CHR ''F'' = CHR ''f''"
  "lower_char CHR ''G'' = CHR ''g''" "lower_char CHR ''H'' = CHR ''h''" "lower_char CHR ''I'' = CHR ''i''"
  "lower_char CHR ''J'' = CHR ''j''" "lower_char CHR ''K'' = CHR ''k''" "lower_char CHR ''L'' = CHR ''l''"
  "lower_char CHR ''M'' = CHR ''m''" "lower_char CHR ''N'' = CHR ''n''" "lower_char CHR ''O'' = CHR ''o''"
  "lower_char CHR ''P'' = CHR ''p''" "lower_char CHR ''Q'' = CHR ''q''" "lower_char CHR ''R'' = CHR ''r''"
  "lower_char CHR ''S'' = CHR ''s''" "lower_char CHR ''T'' = CHR ''t''" "lower_char CHR ''U'' = CHR ''u''"
  "lower_char CHR ''V'' = CHR ''v''" "lower_char CHR ''W'' = CHR ''w''" "lower_char CHR ''X'' = CHR ''x''"
  "lower_char CHR ''Y'' = CHR ''y''" "lower_char CHR ''Z'' = CHR ''z''" "lower_char CHR ''a'' = CHR ''a''"
  "lower_char CHR ''b'' = CHR ''b''" "lower_char CHR ''c'' = CHR ''c''" "lower_char CHR ''d'' = CHR ''d''"
  "lower_char CHR ''e'' = CHR ''e''" "lower_char CHR ''f'' = CHR ''f''" "lower_char CHR ''g'' = CHR ''g''"
  "lower_char CHR ''h'' = CHR ''h''" "lower_char CHR ''i'' = CHR ''i''" "lower_char CHR ''j'' = CHR ''j''"
  "lower_char CHR ''k'' = CHR ''k''" "lower_char CHR ''l'' = CHR ''l''" "lower_char CHR ''m'' = CHR ''m''"
  "lower_char CHR ''n'' = CHR ''n''" "lower_char CHR ''o'' = CHR ''o''" "lower_char CHR ''p'' = CHR ''p''"
  "lower_char CHR ''q'' = CHR ''q''" "lower_char CHR ''r'' = CHR ''r''" "lower_char CHR ''s'' = CHR ''s''"
  "lower_char CHR ''t'' = CHR ''t''" "lower_char CHR ''u'' = CHR ''u''" "lower_char CHR ''v'' = CHR ''v''"
  "lower_char CHR ''w'' = CHR ''w''" "lower_char CHR ''x'' = CHR ''x''" "lower_char CHR ''y'' = CHR ''y''"
  "lower_char CHR ''z'' = CHR ''z''"
  by (simp_all add: lower_char_def lower_letters_def upper_letters_def)

lemma star_space_stop:
  "\<not> is_ws c \<Longrightarrow>
   ms (Star (Ch Space)) \<lparr>behind = p, ahead = c # cs, caps = k\<rparr>
     = [\<lparr>behind = p, ahead = c # cs, caps = k\<rparr>]"
  by (subst ms.simps(5)) simp

lemma star_space_step:
  "is_ws c \<Longrightarrow>
   ms (Star (Ch Space)) \<lparr>behind = p, ahead = c # cs, caps = k\<rparr>
     = ms (Star (Ch Space)) \<lparr>behind = c # p, ahead = cs, caps = k\<rparr>
       @ [\<lparr>behind = p, ahead = c # cs, caps = k\<rparr>]"
  by (subst ms.simps(5)) simp

lemmas date_rx_defs =
  mmddyyyyPattern_def mmddyyyyDashPattern_def yyyymmddPattern_def d12_def d4_def Opt_def

lemma padStart2_digits:
  "length d = 1 \<or> length d = 2 \<Longrightarrow> padStart2 d = (if length d = 1 then CHR ''0'' # d else d)"
  by (auto simp: padStart2_def)

lemma numeric_shapes:
  assumes mo: "list_all is_digit mo" "length mo = 1 \<or> length mo = 2"
    and d: "list_all is_digit d" "length d = 1 \<or> length d = 2"
    and y: "list_all is_digit y" "length y = 4"
  shows "normalizeDate (mo @ ''/'' @ d @ ''/'' @ y)
           = padStart2 d @ ''/'' @ padStart2 mo @ ''/'' @ y"
    and "normalizeDate (mo @ ''-'' @ d @ ''-'' @ y)
           = padStart2 d @ ''/'' @ padStart2 mo @ ''/'' @ y"
    and "normalizeDate (y @ ''-'' @ mo @ ''-'' @ d)
           = padStart2 d @ ''/'' @ padStart2 mo @ ''/'' @ y"
proof -
  from y obtain y1 y2 y3 y4 where yy: "y = [y1, y2, y3, y4]"
    "is_digit y1" "is_digit y2" "is_digit y3" "is_digit y4" by (rule digits_4)
  note facts = normalizeDate_def Let_def trim_id digit_not_ws monthNamePattern_digit
    re_match_Bol date_rx_defs digit_not not_digit_lits consumed_def group_def text_of_def
  show "normalizeDate (mo @ ''/'' @ d @ ''/'' @ y)
           = padStart2 d @ ''/'' @ padStart2 mo @ ''/'' @ y"
    using mo d yy by (elim digits_1_2) (simp_all add: facts)
  show "normalizeDate (mo @ ''-'' @ d @ ''-'' @ y)
           = padStart2 d @ ''/'' @ padStart2 mo @ ''/'' @ y"
    using mo d yy by (elim digits_1_2) (simp_all add: facts)
  show "normalizeDate (y @ ''-'' @ mo @ ''-'' @ d)
           = padStart2 d @ ''/'' @ padStart2 mo @ ''/'' @ y"
    using mo d yy by (elim digits_1_2) (simp_all add: facts)
qed

lemma month_shapes:
  assumes n: "name \<in> set month_names"
    and d: "list_all is_digit d" "length d = 1 \<or> length d = 2"
    and y: "list_all is_digit y" "length y = 4"
  shows "normalizeDate (name @ '' '' @ d @ '', '' @ y)
           = padStart2 d @ ''/'' @ monthNames (toLowerCase name) @ ''/'' @ y"
    and "normalizeDate (name @ '' '' @ d @ '' '' @ y)
           = padStart2 d @ ''/'' @ monthNames (toLowerCase name) @ ''/'' @ y"
proof -
  from y obtain y1 y2 y3 y4 where yy: "y = [y1, y2, y3, y4]"
    "is_digit y1" "is_digit y2" "is_digit y3" "is_digit y4" by (rule digits_4)
  note facts = normalizeDate_def Let_def trim_id digit_not_ws
    re_match_Bol monthNamePattern_def d12_def d4_def Opt_def Plus_def digit_not not_digit_lits
    consumed_def group_def text_of_def month_alt_def str_i_def star_space_stop
    star_space_step is_ws_def ws_lits upper_char_letters lower_char_letters digit_upper
    monthNames_def monthNames_table_def toLowerCase_def
  show "normalizeDate (name @ '' '' @ d @ '', '' @ y)
           = padStart2 d @ ''/'' @ monthNames (toLowerCase name) @ ''/'' @ y"
    using n d yy unfolding month_names_def set_simps insert_iff empty_iff
    by (elim disjE digits_1_2 FalseE; simp add: facts month_names_def)
  show "normalizeDate (name @ '' '' @ d @ '' '' @ y)
           = padStart2 d @ ''/'' @ monthNames (toLowerCase name) @ ''/'' @ y"
    using n d yy unfolding month_names_def set_simps insert_iff empty_iff
    by (elim disjE digits_1_2 FalseE; simp add: facts month_names_def)
qed

lemma month_numbers:
  assumes "name \<in> set month_names"
  shows "length (monthNames (toLowerCase name)) = 2"
    and "list_all is_digit (monthNames (toLowerCase name))"
  using assms
  by (auto simp: month_names_def monthNames_def monthNames_table_def toLowerCase_def
        lower_char_letters is_digit_def)

text \<open>
  Claim C4, as amended.  \<open>normalizeDate\<close> maps \<open>"10/21/2025"\<close>, \<open>"10-21-2025"\<close>,
  \<open>"2025-10-21"\<close>, \<open>"Oct 21, 2025"\<close> and \<open>"October 21 2025"\<close> to \<open>"21/10/2025"\<close>, and it
  pads day and month with a zero: for every month \<open>mo\<close> and day \<open>d\<close> of one or two digits,
  every year \<open>y\<close> of four digits and every month name of the pattern, the texts
  \<open>mo/d/y\<close>, \<open>mo-d-y\<close>, \<open>y-mo-d\<close>, \<open>name d, y\<close> and \<open>name d y\<close> come back as day, month
  and year separated by \<open>/\<close>, a one-digit day or month with \<open>0\<close> in front, the month of
  a name as its two digits (\<open>01\<close> for \<open>Jan\<close> and \<open>January\<close>, and so on to \<open>12\<close>); so
  \<open>"1/2/2025"\<close> gives \<open>"02/01/2025"\<close>.  When the trimmed input
  matches none of the four patterns (which cover the five shapes), the result is the
  trimmed input: the input without its leading and trailing white space, not the input
  itself.
\<close>

theorem normalizeDate_shapes_and_fallthrough:
  "normalizeDate ''10/21/2025'' = ''21/10/2025''
   \<and> normalizeDate ''10-21-2025'' = ''21/10/2025''
   \<and> normalizeDate ''2025-10-21'' = ''21/10/2025''
   \<and> normalizeDate ''Oct 21, 2025'' = ''21/10/2025''
   \<and> normalizeDate ''October 21 2025'' = ''21/10/2025''
   \<and> normalizeDate ''1/2/2025'' = ''02/01/2025''
   \<and> normalizeDate ''1-2-2025'' = ''02/01/2025''
   \<and> normalizeDate ''2025-1-2'' = ''02/01/2025''
   \<and> normalizeDate ''Jan 2, 2025'' = ''02/01/2025''
   \<and> normalizeDate ''January 2 2025'' = ''02/01/2025''
   \<and> (list_all is_digit mo \<and> (length mo = 1 \<or> length mo = 2)
        \<and> list_all is_digit d \<and> (length d = 1 \<or> length d = 2)
        \<and> list_all is_digit y \<and> length y = 4
        \<longrightarrow> normalizeDate (mo @ ''/'' @ d @ ''/'' @ y)
              = (if length d = 1 then CHR ''0'' # d else d) @ ''/''
                @ (if length mo = 1 then CHR ''0'' # mo else mo) @ ''/'' @ y
            \<and> normalizeDate (mo @ ''-'' @ d @ ''-'' @ y)
              = (if length d = 1 then CHR ''0'' # d else d) @ ''/''
                @ (if length mo = 1 then CHR ''0'' # mo else mo) @ ''/'' @ y
            \<and> normalizeDate (y @ ''-'' @ mo @ ''-'' @ d)
              = (if length d = 1 then CHR ''0'' # d else d) @ ''/''
                @ (if length mo = 1 then CHR ''0'' # mo else mo) @ ''/'' @ y)
   \<and> (name \<in> set month_names
        \<and> list_all is_digit d \<and> (length d = 1 \<or> length d = 2)
        \<and> list_all is_digit y \<and> length y = 4
        \<longrightarrow> normalizeDate (name @ '' '' @ d @ '', '' @ y)
              = (if length d = 1 then CHR ''0'' # d else d) @ ''/''
                @ monthNames (toLowerCase name) @ ''/'' @ y
            \<and> normalizeDate (name @ '' '' @ d @ '' '' @ y)
              = (if length d = 1 then CHR ''0'' # d else d) @ ''/''
                @ monthNames (toLowerCase name) @ ''/'' @ y
            \<and> length (monthNames (toLowerCase name)) = 2
            \<and> list_all is_digit (monthNames (toLowerCase name)))
   \<and> map (\<lambda>name. monthNames (toLowerCase name)) month_names
       = [''01'', ''02'', ''03'', ''04'', ''05'', ''06'', ''07'', ''08'', ''09'', ''10'', ''11'',
             ''12'', ''01'', ''02'', ''03'', ''04'', ''05'', ''06'', ''07'', ''08'', ''09'', ''10'',
             ''11'', ''12'']
   \<and> (re_match monthNamePattern (trim s) = None
        \<and> re_match mmddyyyyPattern (trim s) = None
        \<and> re_match mmddyyyyDashPattern (trim s) = None
        \<and> re_match yyyymmddPattern (trim s) = None
        \<longrightarrow> normalizeDate s = trim s)"
proof -
  have tab: "map (\<lambda>name. monthNames (toLowerCase name)) month_names
       = [''01'', ''02'', ''03'', ''04'', ''05'', ''06'', ''07'', ''08'', ''09'', ''10'', ''11'',
             ''12'', ''01'', ''02'', ''03'', ''04'', ''05'', ''06'', ''07'', ''08'', ''09'', ''10'',
             ''11'', ''12'']"
    by code_simp
  have a: "normalizeDate ''10/21/2025'' = ''21/10/2025''" by code_simp
  have b: "normalizeDate ''10-21-2025'' = ''21/10/2025''" by code_simp
  have c: "normalizeDate ''2025-10-21'' = ''21/10/2025''" by code_simp
  have d: "normalizeDate ''Oct 21, 2025'' = ''21/10/2025''" by code_simp
  have e: "normalizeDate ''October 21 2025'' = ''21/10/2025''" by code_simp
  have a1: "normalizeDate ''1/2/2025'' = ''02/01/2025''" by code_simp
  have b1: "normalizeDate ''1-2-2025'' = ''02/01/2025''" by code_simp
  have c1: "normalizeDate ''2025-1-2'' = ''02/01/2025''" by code_simp
  have d1: "normalizeDate ''Jan 2, 2025'' = ''02/01/2025''" by code_simp
  have e1: "normalizeDate ''January 2 2025'' = ''02/01/2025''" by code_simp
  have num: "list_all is_digit mo \<and> (length mo = 1 \<or> length mo = 2)
        \<and> list_all is_digit d \<and> (length d = 1 \<or> length d = 2)
        \<and> list_all is_digit y \<and> length y = 4
        \<longrightarrow> normalizeDate (mo @ ''/'' @ d @ ''/'' @ y)
              = (if length d = 1 then CHR ''0'' # d else d) @ ''/''
                @ (if length mo = 1 then CHR ''0'' # mo else mo) @ ''/'' @ y
            \<and> normalizeDate (mo @ ''-'' @ d @ ''-'' @ y)
              = (if length d = 1 then CHR ''0'' # d else d) @ ''/''
                @ (if length mo = 1 then CHR ''0'' # mo else mo) @ ''/'' @ y
            \<and> normalizeDate (y @ ''-'' @ mo @ ''-'' @ d)
              = (if length d = 1 then CHR ''0'' # d else d) @ ''/''
                @ (if length mo = 1 then CHR ''0'' # mo else mo) @ ''/'' @ y"
    using numeric_shapes [of mo d y] padStart2_digits [of d] padStart2_digits [of mo]
    by simp
  have nam: "name \<in> set month_names
        \<and> list_all is_digit d \<and> (length d = 1 \<or> length d = 2)
        \<and> list_all is_digit y \<and> length y = 4
        \<longrightarrow> normalizeDate (name @ '' '' @ d @ '', '' @ y)
              = (if length d = 1 then CHR ''0'' # d else d) @ ''/''
                @ monthNames (toLowerCase name) @ ''/'' @ y
            \<and> normalizeDate (name @ '' '' @ d @ '' '' @ y)
              = (if length d = 1 then CHR ''0'' # d else d) @ ''/''
                @ monthNames (toLowerCase name) @ ''/'' @ y
            \<and> length (monthNames (toLowerCase name)) = 2
            \<and> list_all is_digit (monthNames (toLowerCase name))"
    using month_shapes [of name d y] month_numbers [of name] padStart2_digits [of d]
    by simp
  have f: "re_match monthNamePattern (trim s) = None
        \<and> re_match mmddyyyyPattern (trim s) = None
        \<and> re_match mmddyyyyDashPattern (trim s) = None
        \<and> re_match yyyymmddPattern (trim s) = None
        \<longrightarrow> normalizeDate s = trim s"
    by (simp add: normalizeDate_def)
  from a b c d e a1 b1 c1 d1 e1 num nam tab f show ?thesis by blast
qed

theorem normalizeDate_shapes_and_fallthrough_witness:
  "list_all is_digit ''7'' \<and> list_all is_digit ''4'' \<and> list_all is_digit ''2025''
   \<and> ''Jul'' \<in> set month_names
   \<and> normalizeDate ''7/4/2025'' = ''04/07/2025''
   \<and> normalizeDate ''7-4-2025'' = ''04/07/2025''
   \<and> normalizeDate ''2025-7-4'' = ''04/07/2025''
   \<and> normalizeDate ''Jul 4, 2025'' = ''04/07/2025''
   \<and> normalizeDate ''Jul 4 2025'' = ''04/07/2025''
   \<and> re_match monthNamePattern (trim ''  pending  '') = None
   \<and> re_match mmddyyyyPattern (trim ''  pending  '') = None
   \<and> re_match mmddyyyyDashPattern (trim ''  pending  '') = None
   \<and> re_match yyyymmddPattern (trim ''  pending  '') = None
   \<and> normalizeDate ''  pending  '' = ''pending''"
proof -
  have n: "re_match monthNamePattern (trim ''  pending  '') = None"
    "re_match mmddyyyyPattern (trim ''  pending  '') = None"
    "re_match mmddyyyyDashPattern (trim ''  pending  '') = None"
    "re_match yyyymmddPattern (trim ''  pending  '') = None"
    by code_simp+
  have t: "trim ''  pending  '' = ''pending''" by code_simp
  have h: "list_all is_digit ''7''" "list_all is_digit ''4''" "list_all is_digit ''2025''"
    "''Jul'' \<in> set month_names" "monthNames (toLowerCase ''Jul'') = ''07''"
    by code_simp+
  from normalizeDate_shapes_and_fallthrough [of "''7''" "''4''" "''2025''" "''Jul''" "''  pending  ''"]
    n t h
  show ?thesis by simp
qed

text \<open>
  The claim as first stated ("returns the input unchanged") fails on an input with
  surrounding white space: \<open>" abc"\<close> matches no pattern, trimmed or not, and comes back
  as \<open>"abc"\<close>.
\<close>

theorem normalizeDate_unchanged_counterexample:
  "re_match monthNamePattern '' abc'' = None
   \<and> re_match mmddyyyyPattern '' abc'' = None
   \<and> re_match mmddyyyyDashPattern '' abc'' = None
   \<and> re_match yyyymmddPattern '' abc'' = None
   \<and> re_match monthNamePattern (trim '' abc'') = None
   \<and> re_match mmddyyyyPattern (trim '' abc'') = None
   \<and> re_match mmddyyyyDashPattern (trim '' abc'') = None
   \<and> re_match yyyymmddPattern (trim '' abc'') = None
   \<and> normalizeDate '' abc'' = ''abc''
   \<and> normalizeDate '' abc'' \<noteq> '' abc''"
proof -
  have n: "re_match monthNamePattern '' abc'' = None"
    "re_match mmddyyyyPattern '' abc'' = None"
    "re_match mmddyyyyDashPattern '' abc'' = None"
    "re_match yyyymmddPattern '' abc'' = None"
    "re_match monthNamePattern (trim '' abc'') = None"
    "re_match mmddyyyyPattern (trim '' abc'') = None"
    "re_match mmddyyyyDashPattern (trim '' abc'') = None"
    "re_match yyyymmddPattern (trim '' abc'') = None"
    by code_simp+
  have v: "normalizeDate '' abc'' = ''abc''" by code_simp
  from n v show ?thesis by simp
qed

subsection \<open>The CSV reader on what the serializer writes\<close>

lemma scan_quoted_body:
  "csv_scan Quoted cur row rows (double_quotes v @ dquote # rest)
     = csv_scan QuoteEnd (rev v @ cur) row rows rest"
  by (induction v arbitrary: cur) (simp_all add: double_quotes_def)

lemma scan_quote_wrap:
  "csv_scan FieldStart [] row rows (quote_wrap v @ rest)
     = csv_scan QuoteEnd (rev v) row rows rest"
  using scan_quoted_body [of "[]" row rows v rest] by (simp add: quote_wrap_def)

lemma scan_plain:
  "\<not> needs_quoting v \<Longrightarrow> st \<noteq> Quoted \<Longrightarrow> v \<noteq> []
   \<Longrightarrow> csv_scan st cur row rows (v @ rest) = csv_scan Unquoted (rev v @ cur) row rows rest"
proof (induction v arbitrary: st cur)
  case Nil
  then show ?case by simp
next
  case (Cons c v)
  have c: "c \<noteq> dquote" "c \<noteq> comma" "c \<noteq> newline" and v: "\<not> needs_quoting v"
    using Cons.prems(1) by (auto simp: needs_quoting_def)
  have step: "csv_scan st cur row rows ((c # v) @ rest)
      = csv_scan Unquoted (c # cur) row rows (v @ rest)"
    using c Cons.prems(2) by simp
  show ?case
  proof (cases "v = []")
    case True
    with step show ?thesis by simp
  next
    case False
    with Cons.IH [OF v, of Unquoted "c # cur"] step show ?thesis by simp
  qed
qed

lemma scan_comma:
  "st \<noteq> Quoted \<Longrightarrow> csv_scan st cur row rows (comma # rest)
     = csv_scan FieldStart [] (rev cur # row) rows rest"
  by simp

lemma scan_newline:
  "st \<noteq> Quoted \<Longrightarrow> csv_scan st cur row rows (newline # rest)
     = csv_scan FieldStart [] [] (rev (rev cur # row) # rows) rest"
  by simp

lemma scan_field:
  assumes "encodes e v"
  shows "\<exists>st. st \<noteq> Quoted \<and>
           (\<forall>rest. csv_scan FieldStart [] row rows (e @ rest)
                     = csv_scan st (rev v) row rows rest)"
proof (cases "e = quote_wrap v")
  case True
  then show ?thesis using scan_quote_wrap by (intro exI [of _ QuoteEnd]) simp
next
  case False
  with assms have e: "e = v" and nq: "\<not> needs_quoting v" by (auto simp: encodes_def)
  show ?thesis
  proof (cases "v = []")
    case True
    with e show ?thesis by (intro exI [of _ FieldStart]) simp
  next
    case False
    with e scan_plain [OF nq, of FieldStart "[]" row rows] show ?thesis
      by (intro exI [of _ Unquoted]) simp
  qed
qed

lemma scan_row:
  assumes "list_all2 encodes es vs" "es \<noteq> []"
  shows "\<exists>st. st \<noteq> Quoted \<and>
           (\<forall>rest. csv_scan FieldStart [] row rows (join [comma] es @ rest)
                     = csv_scan st (rev (last vs)) (rev (butlast vs) @ row) rows rest)"
  using assms
proof (induction es vs arbitrary: row rule: list_all2_induct)
  case Nil
  then show ?case by simp
next
  case (Cons e es v vs)
  from scan_field [OF Cons.hyps(1), of row rows] obtain st where
    st: "st \<noteq> Quoted"
      "\<And>rest. csv_scan FieldStart [] row rows (e @ rest) = csv_scan st (rev v) row rows rest"
    by blast
  show ?case
  proof (cases es)
    case Nil
    with Cons.hyps(2) have "vs = []" by simp
    with Nil st show ?thesis by (intro exI [of _ st]) simp
  next
    case (Cons e' es')
    then have ne: "es \<noteq> []" by simp
    from Cons.hyps(2) ne have vne: "vs \<noteq> []" by auto
    from Cons.IH [OF ne, of "v # row"] obtain st' where
      st': "st' \<noteq> Quoted"
        "\<And>rest. csv_scan FieldStart [] (v # row) rows (join [comma] es @ rest)
           = csv_scan st' (rev (last vs)) (rev (butlast vs) @ v # row) rows rest"
      by blast
    have "csv_scan FieldStart [] row rows (join [comma] (e # es) @ rest)
        = csv_scan st' (rev (last (v # vs))) (rev (butlast (v # vs)) @ row) rows rest" for rest
    proof -
      have "join [comma] (e # es) @ rest = e @ comma # (join [comma] es @ rest)"
        using Cons by simp
      then show ?thesis
        using st(2) [of "comma # (join [comma] es @ rest)"] scan_comma [OF st(1)] st'(2) vne
        by simp
    qed
    with st'(1) show ?thesis by blast
  qed
qed

lemma scan_rows:
  assumes "list_all2 (list_all2 encodes) ess vss" "ess \<noteq> []" "\<forall>es \<in> set ess. es \<noteq> []"
  shows "csv_scan FieldStart [] [] rows (join [newline] (map (join [comma]) ess))
           = rev rows @ vss"
  using assms
proof (induction ess vss arbitrary: rows rule: list_all2_induct)
  case Nil
  then show ?case by simp
next
  case (Cons es ess vs vss)
  have es: "es \<noteq> []" using Cons.prems(2) by simp
  then have vs: "vs \<noteq> []" using Cons.hyps(1) by auto
  from scan_row [OF Cons.hyps(1) es, of "[]" rows] obtain st where
    st: "st \<noteq> Quoted"
      "\<And>rest. csv_scan FieldStart [] [] rows (join [comma] es @ rest)
         = csv_scan st (rev (last vs)) (rev (butlast vs)) rows rest"
    by auto
  have whole: "rev (rev (rev (last vs)) # rev (butlast vs)) = vs"
    using vs by (simp add: snoc_eq_iff_butlast)
  show ?case
  proof (cases ess)
    case Nil
    with Cons.hyps(2) have "vss = []" by simp
    with Nil st(2) [of "[]"] whole show ?thesis by simp
  next
    case (Cons es' ess')
    then have ne: "ess \<noteq> []" by simp
    have "join [newline] (map (join [comma]) (es # ess))
        = join [comma] es @ newline # join [newline] (map (join [comma]) ess)"
      using Cons by simp
    then show ?thesis
      using st(2) [of "newline # join [newline] (map (join [comma]) ess)"]
        scan_newline [OF st(1)] whole Cons.IH [OF ne, of "vs # rows"] Cons.prems(2)
      by simp
  qed
qed

lemma csv_cell_encodes:
  assumes "h = ''amount'' \<or> h = ''balance''
           \<Longrightarrow> dquote \<notin> set (text_of (fld t h)) \<and> newline \<notin> set (text_of (fld t h))"
  shows "encodes (csv_cell t h) (cell_value t h)"
proof (cases "h = ''amount'' \<or> h = ''balance''")
  case True
  with assms have "\<not> needs_quoting (strip_commas (text_of (fld t h)))"
    by (auto simp: needs_quoting_def strip_commas_def)
  with True show ?thesis
    by (auto simp: encodes_def csv_cell_def cell_value_def)
next
  case False
  then show ?thesis
    by (auto simp: encodes_def csv_cell_def cell_value_def Let_def)
qed

lemma header_label_encodes:
  "h \<in> set orderedHeaders \<Longrightarrow> encodes (header_label h) (header_label h)"
  by (auto simp: orderedHeaders_def header_label_def encodes_def needs_quoting_def)

lemma csv_columns_subset: "set (csv_columns ts) \<subseteq> set orderedHeaders"
  by (auto simp: csv_columns_def)

lemma csv_columns_Nil: "csv_columns [] = []"
  by (simp add: csv_columns_def has_data_def)

lemma convertToCSV_parse:
  assumes cols: "csv_columns ts \<noteq> []"
    and clean: "\<And>t h. t \<in> set ts \<Longrightarrow> h = ''amount'' \<or> h = ''balance''
           \<Longrightarrow> dquote \<notin> set (text_of (fld t h)) \<and> newline \<notin> set (text_of (fld t h))"
  shows "csv_parse (convertToCSV ts)
           = map header_label (csv_columns ts)
             # map (\<lambda>t. map (cell_value t) (csv_columns ts)) ts"
proof -
  define hs where "hs = csv_columns ts"
  define ess where "ess = map header_label hs # map (\<lambda>t. map (csv_cell t) hs) ts"
  define vss where "vss = map header_label hs # map (\<lambda>t. map (cell_value t) hs) ts"
  have ts: "ts \<noteq> []" using cols csv_columns_Nil by auto
  have out: "convertToCSV ts = join [newline] (map (join [comma]) ess)"
    using ts by (simp add: convertToCSV_def Let_def ess_def hs_def comp_def)
  have labels: "list_all2 encodes (map header_label hs) (map header_label hs)"
    using csv_columns_subset [of ts] header_label_encodes
    by (auto simp: list_all2_map1 list_all2_map2 list_all2_same hs_def)
  have cells: "list_all2 encodes (map (csv_cell t) hs) (map (cell_value t) hs)"
    if "t \<in> set ts" for t
    using csv_cell_encodes [of _ t] clean [OF that]
    by (auto simp: list_all2_map1 list_all2_map2 list_all2_same)
  have all: "list_all2 (list_all2 encodes) ess vss"
    unfolding ess_def vss_def using labels cells
    by (auto simp: list_all2_map1 list_all2_map2 list_all2_same)
  have ne: "\<forall>es \<in> set ess. es \<noteq> []"
    using cols by (auto simp: ess_def hs_def)
  have "ess \<noteq> []" by (simp add: ess_def)
  from scan_rows [OF all this ne, of "[]"] show ?thesis
    by (simp add: csv_parse_def out vss_def hs_def)
qed

lemma map_of_zip_map:
  "x \<in> set xs \<Longrightarrow> inj_on f (set xs) \<Longrightarrow> map_of (zip (map f xs) (map g xs)) (f x) = Some (g x)"
  by (induction xs) (auto simp: inj_on_def)

lemma header_label_inj: "inj_on header_label (set orderedHeaders)"
  by (simp add: orderedHeaders_def header_label_def inj_on_def)

text \<open>
  Claim C5.  In a row written by \<open>convertToCSV\<close>: the date cell is always wrapped in
  quotes with the quotes inside it doubled; the amount and balance cells are the value
  with its commas removed, never wrapped; any other cell is wrapped (quotes doubled)
  exactly when its value holds a comma, a quote or a line feed.  Reading the whole
  output back by the standard CSV quoting rule gives the header labels and, row by row,
  the values written (amount and balance without their commas), whenever some column is
  written and no amount or balance holds a quote or a line feed; so the Vendor/Payee
  column of a record read back is its vendor, also when the vendor holds a comma.
\<close>

theorem convertToCSV_row_rules_and_roundtrip:
  "csv_cell t ''date'' = dquote # double_quotes (text_of (fld t ''date'')) @ [dquote]
   \<and> csv_cell t ''amount'' = strip_commas (text_of (fld t ''amount''))
   \<and> csv_cell t ''balance'' = strip_commas (text_of (fld t ''balance''))
   \<and> (h \<noteq> ''date'' \<and> h \<noteq> ''amount'' \<and> h \<noteq> ''balance'' \<longrightarrow>
        csv_cell t h =
          (if comma \<in> set (text_of (fld t h)) \<or> dquote \<in> set (text_of (fld t h))
              \<or> newline \<in> set (text_of (fld t h))
           then dquote # double_quotes (text_of (fld t h)) @ [dquote]
           else text_of (fld t h)))
   \<and> (csv_columns ts \<noteq> []
        \<and> (\<forall>r \<in> set ts. \<forall>k \<in> {''amount'', ''balance''}.
              dquote \<notin> set (text_of (fld r k)) \<and> newline \<notin> set (text_of (fld r k)))
        \<longrightarrow> csv_parse (convertToCSV ts)
              = map header_label (csv_columns ts)
                # map (\<lambda>r. map (cell_value r) (csv_columns ts)) ts)
   \<and> (fld t ''vendor'' = Some v \<and> v \<noteq> []
        \<and> (\<forall>k \<in> {''amount'', ''balance''}.
              dquote \<notin> set (text_of (fld t k)) \<and> newline \<notin> set (text_of (fld t k)))
        \<longrightarrow> (\<exists>labels fields. csv_parse (convertToCSV [t]) = [labels, fields]
                \<and> map_of (zip labels fields) ''Vendor/Payee'' = Some v))"
proof -
  have roundtrip: "csv_parse (convertToCSV us)
       = map header_label (csv_columns us) # map (\<lambda>r. map (cell_value r) (csv_columns us)) us"
    if "csv_columns us \<noteq> []"
      "\<forall>r \<in> set us. \<forall>k \<in> {''amount'', ''balance''}.
          dquote \<notin> set (text_of (fld r k)) \<and> newline \<notin> set (text_of (fld r k))"
    for us
    using that by (intro convertToCSV_parse) auto
  have vendor: "\<exists>labels fields. csv_parse (convertToCSV [t]) = [labels, fields]
                \<and> map_of (zip labels fields) ''Vendor/Payee'' = Some v"
    if v: "fld t ''vendor'' = Some v" "v \<noteq> []"
      and c: "\<forall>k \<in> {''amount'', ''balance''}.
              dquote \<notin> set (text_of (fld t k)) \<and> newline \<notin> set (text_of (fld t k))"
  proof -
    have mem: "''vendor'' \<in> set (csv_columns [t])"
      using v by (simp add: csv_columns_def orderedHeaders_def has_data_def)
    then have ne: "csv_columns [t] \<noteq> []" by auto
    have inj: "inj_on header_label (set (csv_columns [t]))"
      using header_label_inj csv_columns_subset by (rule inj_on_subset)
    have "map_of (zip (map header_label (csv_columns [t])) (map (cell_value t) (csv_columns [t])))
            (header_label ''vendor'') = Some (cell_value t ''vendor'')"
      using mem inj by (rule map_of_zip_map)
    moreover have "header_label ''vendor'' = ''Vendor/Payee''" "cell_value t ''vendor'' = v"
      using v by (simp_all add: header_label_def cell_value_def text_of_def)
    ultimately show ?thesis
      using roundtrip [of "[t]"] ne c by simp
  qed
  have r1: "csv_cell t ''date'' = dquote # double_quotes (text_of (fld t ''date'')) @ [dquote]"
    by (simp add: csv_cell_def quote_wrap_def)
  have r2: "csv_cell t ''amount'' = strip_commas (text_of (fld t ''amount''))"
    "csv_cell t ''balance'' = strip_commas (text_of (fld t ''balance''))"
    by (simp_all add: csv_cell_def)
  have r3: "h \<noteq> ''date'' \<and> h \<noteq> ''amount'' \<and> h \<noteq> ''balance'' \<longrightarrow>
        csv_cell t h =
          (if comma \<in> set (text_of (fld t h)) \<or> dquote \<in> set (text_of (fld t h))
              \<or> newline \<in> set (text_of (fld t h))
           then dquote # double_quotes (text_of (fld t h)) @ [dquote]
           else text_of (fld t h))"
    by (simp add: csv_cell_def quote_wrap_def needs_quoting_def Let_def)
  from r1 r2 r3 roundtrip [of ts] vendor show ?thesis by blast
qed

theorem convertToCSV_row_rules_and_roundtrip_witness:
  "csv_cell [(''date'', ''21/10/2025''), (''vendor'', ''Smith, John''), (''amount'', ''$1,234.50'')]
      ''vendor'' = dquote # ''Smith, John'' @ [dquote]
   \<and> csv_parse (convertToCSV
        [[(''date'', ''21/10/2025''), (''vendor'', ''Smith, John''), (''amount'', ''$1,234.50'')]])
      = [[''Date'', ''Vendor/Payee'', ''Amount''], [''21/10/2025'', ''Smith, John'', ''$1234.50'']]
   \<and> (\<exists>labels fields.
        csv_parse (convertToCSV
          [[(''date'', ''21/10/2025''), (''vendor'', ''Smith, John''), (''amount'', ''$1,234.50'')]])
          = [labels, fields]
        \<and> map_of (zip labels fields) ''Vendor/Payee'' = Some ''Smith, John'')"
  using convertToCSV_row_rules_and_roundtrip
    [of "[(''date'', ''21/10/2025''), (''vendor'', ''Smith, John''), (''amount'', ''$1,234.50'')]"
        "''vendor''"
        "[[(''date'', ''21/10/2025''), (''vendor'', ''Smith, John''), (''amount'', ''$1,234.50'')]]"
        "''Smith, John''"]
  by (simp add: csv_columns_def orderedHeaders_def has_data_def fld_def text_of_def
      header_label_def cell_value_def strip_commas_def double_quotes_def)

subsection \<open>Validator\<close>

text \<open>
  Claim C6.  For every record, \<open>isValidTransaction\<close> holds exactly when the trimmed
  description is longer than 2 characters or the trimmed amount is not empty (an
  absent property counts as empty).  Removing the date property never changes the
  verdict.  Description \<open>""\<close> with amount \<open>"$10.00"\<close> is valid, description
  \<open>"ab"\<close> with empty amount is not, description \<open>"abc"\<close> with empty amount is.
\<close>

theorem isValidTransaction_iff:
  "(isValidTransaction (Some t) \<longleftrightarrow>
      length (trim (text_of (fld t ''description''))) > 2
      \<or> trim (text_of (fld t ''amount'')) \<noteq> [])
   \<and> isValidTransaction (Some (filter (\<lambda>kv. fst kv \<noteq> ''date'') t))
       = isValidTransaction (Some t)
   \<and> isValidTransaction (Some [(''description'', ''''), (''amount'', ''$10.00'')])
   \<and> \<not> isValidTransaction (Some [(''description'', ''ab''), (''amount'', '''')])
   \<and> isValidTransaction (Some [(''description'', ''abc''), (''amount'', '''')])"
proof -
  have nodate: "isValidTransaction (Some (filter (\<lambda>kv. fst kv \<noteq> ''date'') t))
       = isValidTransaction (Some t)"
    by (simp add: isValidTransaction_Some fld_without_date)
  have e1: "isValidTransaction (Some [(''description'', ''''), (''amount'', ''$10.00'')])"
    by (simp add: isValidTransaction_Some fld_def text_of_def trim_def is_ws_def)
  have e2: "\<not> isValidTransaction (Some [(''description'', ''ab''), (''amount'', '''')])"
    by (simp add: isValidTransaction_Some fld_def text_of_def trim_def is_ws_def)
  have e3: "isValidTransaction (Some [(''description'', ''abc''), (''amount'', '''')])"
    by (simp add: isValidTransaction_Some fld_def text_of_def trim_def is_ws_def)
  from isValidTransaction_Some [of t] nodate e1 e2 e3 show ?thesis by blast
qed

theorem isValidTransaction_iff_witness:
  "isValidTransaction (Some [(''date'', ''''), (''description'', ''Purchase'')])
   \<and> isValidTransaction (Some [(''description'', ''Purchase'')])"
  using isValidTransaction_iff [of "[(''date'', ''''), (''description'', ''Purchase'')]"]
  by (simp add: fld_def text_of_def trim_def is_ws_def)

subsection \<open>The load loops\<close>

lemma progress_loop_bound:
  "clickCount \<le> maxAttempts \<Longrightarrow> fst (progress_loop src clickCount p) \<le> maxAttempts"
proof (induction src clickCount p rule: progress_loop.induct)
  case (1 src clickCount p)
  show ?case
    using 1 by (subst progress_loop.simps) (auto simp: Let_def split: option.splits prod.splits)
qed

lemma plain_loop_bound:
  "clickCount \<le> maxAttempts \<Longrightarrow> fst (plain_loop src clickCount p) \<le> maxAttempts"
proof (induction src clickCount p rule: plain_loop.induct)
  case (1 src clickCount p)
  show ?case
    using 1 by (subst plain_loop.simps) (auto simp: Let_def split: option.splits)
qed

text \<open>The inner loop after \<open>j\<close> polls, in terms of the polls still to come.\<close>

lemma poll_find:
  "j \<le> 30 \<Longrightarrow>
   poll src b (500 * j) a ((sleep src 500 ^^ j) q) =
     (case find (\<lambda>i. b < getCurrentTransactionCount src ((sleep src 500 ^^ i) q)) [Suc j..<31] of
        Some i \<Rightarrow> (getCurrentTransactionCount src ((sleep src 500 ^^ i) q),
                   (sleep src 500 ^^ i) q)
      | None \<Rightarrow> (if j = 30 then a
                 else getCurrentTransactionCount src ((sleep src 500 ^^ 30) q),
                 (sleep src 500 ^^ 30) q))"
proof (induction "30 - j" arbitrary: j a)
  case 0
  then have "j = 30" by simp
  then show ?case by (subst poll.simps) (simp add: maxWaitTime_def)
next
  case (Suc n)
  then have j: "j < 30" by simp
  then have upt: "[Suc j..<31] = Suc j # [Suc (Suc j)..<31]" by (simp add: upt_conv_Cons)
  let ?p' = "(sleep src 500 ^^ Suc j) q"
  let ?a' = "getCurrentTransactionCount src ?p'"
  have step: "poll src b (500 * j) a ((sleep src 500 ^^ j) q) =
      (if b < ?a' then (?a', ?p') else poll src b (500 * Suc j) ?a' ?p')"
    using j by (subst poll.simps) (simp add: maxWaitTime_def Let_def add.commute)
  show ?case
  proof (cases "b < ?a'")
    case True
    with step upt show ?thesis by simp
  next
    case False
    have "n = 30 - Suc j" "Suc j \<le> 30" using Suc.hyps(2) j by simp_all
    from Suc.hyps(1) [OF this, of ?a'] False step upt j show ?thesis
      by (auto split: option.splits)
  qed
qed

lemma poll_first_growth:
  "poll src b 0 a q =
     (case first_growth src b q of
        Some i \<Rightarrow> (getCurrentTransactionCount src ((sleep src 500 ^^ i) q),
                   (sleep src 500 ^^ i) q)
      | None \<Rightarrow> (getCurrentTransactionCount src ((sleep src 500 ^^ 30) q),
                 (sleep src 500 ^^ 30) q))"
  using poll_find [of 0 src b a q] by (simp add: first_growth_def)

lemma incremental_sleeps:
  "incremental src \<Longrightarrow>
   getCurrentTransactionCount src p \<le> getCurrentTransactionCount src ((sleep src n ^^ i) p)"
proof (induction i)
  case 0
  then show ?case by simp
next
  case (Suc i)
  then have "getCurrentTransactionCount src ((sleep src n ^^ i) p)
      \<le> getCurrentTransactionCount src (sleep src n ((sleep src n ^^ i) p))"
    by (simp add: incremental_def)
  with Suc show ?case by simp
qed

lemma progress_loop_growth:
  assumes "clickCount < maxAttempts" "findShowMoreButton src p" "click src p = Some q"
    "first_growth src (getCurrentTransactionCount src p) q = Some i"
  shows "progress_loop src clickCount p
           = progress_loop src (clickCount + 1) ((sleep src 500 ^^ i) q)"
proof -
  from assms(4) have "getCurrentTransactionCount src p
      < getCurrentTransactionCount src ((sleep src 500 ^^ i) q)"
    by (auto simp: first_growth_def find_Some_iff)
  with assms show ?thesis
    by (subst progress_loop.simps) (simp add: Let_def poll_first_growth)
qed

lemma progress_loop_stall:
  assumes "incremental src"
    "clickCount < maxAttempts" "findShowMoreButton src p" "click src p = Some q"
    "first_growth src (getCurrentTransactionCount src p) q = None"
  shows "progress_loop src clickCount p = (clickCount + 1, (sleep src 500 ^^ 30) q)"
proof -
  have "(30::nat) \<in> set [1..<31]" by simp
  with assms(5) have "getCurrentTransactionCount src ((sleep src 500 ^^ 30) q)
      \<le> getCurrentTransactionCount src p"
    unfolding first_growth_def find_None_iff by (meson not_less)
  moreover have "getCurrentTransactionCount src p \<le> getCurrentTransactionCount src q"
    using assms(1,4) by (auto simp: incremental_def)
  moreover have "getCurrentTransactionCount src q
      \<le> getCurrentTransactionCount src ((sleep src 500 ^^ 30) q)"
    using assms(1) by (rule incremental_sleeps)
  ultimately have "getCurrentTransactionCount src ((sleep src 500 ^^ 30) q)
      = getCurrentTransactionCount src p" by simp
  with assms show ?thesis
    by (subst progress_loop.simps) (simp add: Let_def poll_first_growth)
qed

lemma plain_loop_growth:
  assumes "clickCount < maxAttempts" "findShowMoreButton src p" "click src p = Some q"
    "getCurrentTransactionCount src p < getCurrentTransactionCount src (sleep src 2000 q)"
  shows "plain_loop src clickCount p = plain_loop src (clickCount + 1) (sleep src 2000 q)"
  using assms by (subst plain_loop.simps) (simp add: Let_def)

lemma plain_loop_stall:
  assumes "incremental src"
    "clickCount < maxAttempts" "findShowMoreButton src p" "click src p = Some q"
    "\<not> getCurrentTransactionCount src p < getCurrentTransactionCount src (sleep src 2000 q)"
  shows "plain_loop src clickCount p = (clickCount + 1, sleep src 2000 q)"
proof -
  have "getCurrentTransactionCount src p \<le> getCurrentTransactionCount src q"
    using assms(1,4) by (auto simp: incremental_def)
  moreover have "getCurrentTransactionCount src q
      \<le> getCurrentTransactionCount src (sleep src 2000 q)"
    using assms(1) by (simp add: incremental_def)
  ultimately have "getCurrentTransactionCount src (sleep src 2000 q)
      = getCurrentTransactionCount src p" using assms(5) by simp
  with assms show ?thesis
    by (subst plain_loop.simps) (simp add: Let_def)
qed

subsection \<open>The result count asked for before the first click\<close>

text \<open>
  The fourth of the \<open>resultSelectors\<close> is \<open>span:contains("results")\<close>.  On a page where
  \<open>querySelectorAll\<close> rejects it and the three selectors before it find no positive
  number, \<open>getRBCResultCount\<close> throws, and so does \<open>clickAllShowMoreButtonsWithProgress\<close>,
  before any click.
\<close>

lemma getRBCResultCount_invalid_selector:
  assumes "\<forall>selector \<in> set (take 3 resultSelectors).
             \<exists>elements. querySelectorAll src p selector = Some elements
                        \<and> count_in_elements elements = None"
    and "querySelectorAll src p (resultSelectors ! 3) = None"
  shows "getRBCResultCount src p = Inl SyntaxError"
    and "clickAllShowMoreButtonsWithProgress src p = Inl SyntaxError"
proof -
  from assms show "getRBCResultCount src p = Inl SyntaxError"
    by (auto simp: getRBCResultCount_def resultSelectors_def)
  then show "clickAllShowMoreButtonsWithProgress src p = Inl SyntaxError"
    by (simp add: clickAllShowMoreButtonsWithProgress_def)
qed

lemma simulated_no_banner_throws:
  "clickAllShowMoreButtonsWithProgress (simulated [] 400 2) (10, 0, 0, 0) = Inl SyntaxError"
  by (rule getRBCResultCount_invalid_selector(2))
     (simp_all add: simulated_def resultSelectors_def startsWith_def)

subsection \<open>Claim C7\<close>

text \<open>
  Claim C7, as amended.  On every incremental source each of the two load loops clicks
  at most 100 times.  In \<open>clickAllShowMoreButtonsWithProgress\<close>, once
  \<open>getRBCResultCount\<close> has returned, an activation after which none of the 30 polls of
  the 15-second ceiling sees a larger count ends the loop, that activation being the
  last one counted; an activation after which some poll sees a larger count is followed
  by the next turn of the loop.  So when the first two activations grow the count and
  the third does not, it returns after exactly 3 clicks.  \<open>clickAllShowMoreButtons\<close> has
  one fixed wait of 2 s in place of the polls: an activation after which the count read
  at the end of that wait is not larger ends the loop, any other is followed by the next
  turn, and when the first two activations grow the count within their 2 s and the
  third does not, it returns after exactly 3 clicks.
\<close>

theorem load_loop_stops_at_first_stall:
  assumes "incremental src"
  shows "(clickAllShowMoreButtonsWithProgress src p = Inr (n, p') \<longrightarrow> n \<le> 100)
    \<and> fst (clickAllShowMoreButtons src p) \<le> 100
    \<and> (getRBCResultCount src p = Inr totalExpected
        \<longrightarrow> clickAllShowMoreButtonsWithProgress src p = Inr (progress_loop src 0 p))
    \<and> (clickCount < 100 \<and> findShowMoreButton src p \<and> click src p = Some q
        \<and> first_growth src (getCurrentTransactionCount src p) q = None
        \<longrightarrow> progress_loop src clickCount p = (clickCount + 1, (sleep src 500 ^^ 30) q))
    \<and> (clickCount < 100 \<and> findShowMoreButton src p \<and> click src p = Some q
        \<and> first_growth src (getCurrentTransactionCount src p) q = Some i
        \<longrightarrow> progress_loop src clickCount p
            = progress_loop src (clickCount + 1) ((sleep src 500 ^^ i) q))
    \<and> (getRBCResultCount src p = Inr totalExpected
        \<and> findShowMoreButton src p \<and> click src p = Some q
        \<and> first_growth src (getCurrentTransactionCount src p) q = Some i
        \<and> findShowMoreButton src ((sleep src 500 ^^ i) q)
        \<and> click src ((sleep src 500 ^^ i) q) = Some q'
        \<and> first_growth src (getCurrentTransactionCount src ((sleep src 500 ^^ i) q)) q' = Some i'
        \<and> findShowMoreButton src ((sleep src 500 ^^ i') q')
        \<and> click src ((sleep src 500 ^^ i') q') = Some q''
        \<and> first_growth src (getCurrentTransactionCount src ((sleep src 500 ^^ i') q')) q'' = None
        \<longrightarrow> clickAllShowMoreButtonsWithProgress src p = Inr (3, (sleep src 500 ^^ 30) q''))
    \<and> (clickCount < 100 \<and> findShowMoreButton src p \<and> click src p = Some q
        \<and> \<not> getCurrentTransactionCount src p < getCurrentTransactionCount src (sleep src 2000 q)
        \<longrightarrow> plain_loop src clickCount p = (clickCount + 1, sleep src 2000 q))
    \<and> (clickCount < 100 \<and> findShowMoreButton src p \<and> click src p = Some q
        \<and> getCurrentTransactionCount src p < getCurrentTransactionCount src (sleep src 2000 q)
        \<longrightarrow> plain_loop src clickCount p = plain_loop src (clickCount + 1) (sleep src 2000 q))
    \<and> (findShowMoreButton src p \<and> click src p = Some q
        \<and> getCurrentTransactionCount src p < getCurrentTransactionCount src (sleep src 2000 q)
        \<and> findShowMoreButton src (sleep src 2000 q)
        \<and> click src (sleep src 2000 q) = Some q'
        \<and> getCurrentTransactionCount src (sleep src 2000 q)
            < getCurrentTransactionCount src (sleep src 2000 q')
        \<and> findShowMoreButton src (sleep src 2000 q')
        \<and> click src (sleep src 2000 q') = Some q''
        \<and> \<not> getCurrentTransactionCount src (sleep src 2000 q')
              < getCurrentTransactionCount src (sleep src 2000 q'')
        \<longrightarrow> clickAllShowMoreButtons src p = (3, sleep src 2000 q''))"
proof -
  have b1: "clickAllShowMoreButtonsWithProgress src p = Inr (n, p') \<longrightarrow> n \<le> 100"
    using progress_loop_bound [of 0 src p]
    by (auto simp: clickAllShowMoreButtonsWithProgress_def maxAttempts_def split: sum.splits)
  have b2: "fst (clickAllShowMoreButtons src p) \<le> 100"
    using plain_loop_bound [of 0 src p]
    by (simp add: clickAllShowMoreButtons_def maxAttempts_def)
  have ret: "getRBCResultCount src p = Inr totalExpected
        \<longrightarrow> clickAllShowMoreButtonsWithProgress src p = Inr (progress_loop src 0 p)"
    by (simp add: clickAllShowMoreButtonsWithProgress_def)
  have stall: "clickCount < 100 \<and> findShowMoreButton src p \<and> click src p = Some q
        \<and> first_growth src (getCurrentTransactionCount src p) q = None
        \<longrightarrow> progress_loop src clickCount p = (clickCount + 1, (sleep src 500 ^^ 30) q)"
    using progress_loop_stall [OF assms, of clickCount p q] by (simp add: maxAttempts_def)
  have grow: "clickCount < 100 \<and> findShowMoreButton src p \<and> click src p = Some q
        \<and> first_growth src (getCurrentTransactionCount src p) q = Some i
        \<longrightarrow> progress_loop src clickCount p
            = progress_loop src (clickCount + 1) ((sleep src 500 ^^ i) q)"
    using progress_loop_growth [of clickCount src p q i] by (simp add: maxAttempts_def)
  have three: "clickAllShowMoreButtonsWithProgress src p = Inr (3, (sleep src 500 ^^ 30) q'')"
    if "getRBCResultCount src p = Inr totalExpected"
      "findShowMoreButton src p" "click src p = Some q"
      "first_growth src (getCurrentTransactionCount src p) q = Some i"
      "findShowMoreButton src ((sleep src 500 ^^ i) q)"
      "click src ((sleep src 500 ^^ i) q) = Some q'"
      "first_growth src (getCurrentTransactionCount src ((sleep src 500 ^^ i) q)) q' = Some i'"
      "findShowMoreButton src ((sleep src 500 ^^ i') q')"
      "click src ((sleep src 500 ^^ i') q') = Some q''"
      "first_growth src (getCurrentTransactionCount src ((sleep src 500 ^^ i') q')) q'' = None"
  proof -
    have "progress_loop src 0 p = progress_loop src 1 ((sleep src 500 ^^ i) q)"
      using progress_loop_growth [of 0 src p q i] that(2-4)
      by (simp add: maxAttempts_def numeral_2_eq_2 numeral_3_eq_3)
    also have "\<dots> = progress_loop src 2 ((sleep src 500 ^^ i') q')"
      using progress_loop_growth [of 1 src _ q' i'] that(5-7)
      by (simp add: maxAttempts_def numeral_2_eq_2 numeral_3_eq_3)
    also have "\<dots> = (3, (sleep src 500 ^^ 30) q'')"
      using progress_loop_stall [OF assms, of 2 _ q''] that(8-10)
      by (simp add: maxAttempts_def numeral_2_eq_2 numeral_3_eq_3)
    finally show ?thesis using that(1) by (simp add: clickAllShowMoreButtonsWithProgress_def)
  qed
  have pstall: "clickCount < 100 \<and> findShowMoreButton src p \<and> click src p = Some q
        \<and> \<not> getCurrentTransactionCount src p < getCurrentTransactionCount src (sleep src 2000 q)
        \<longrightarrow> plain_loop src clickCount p = (clickCount + 1, sleep src 2000 q)"
    using plain_loop_stall [OF assms, of clickCount p q] by (simp add: maxAttempts_def)
  have pgrow: "clickCount < 100 \<and> findShowMoreButton src p \<and> click src p = Some q
        \<and> getCurrentTransactionCount src p < getCurrentTransactionCount src (sleep src 2000 q)
        \<longrightarrow> plain_loop src clickCount p = plain_loop src (clickCount + 1) (sleep src 2000 q)"
    using plain_loop_growth [of clickCount src p q] by (simp add: maxAttempts_def)
  have pthree: "clickAllShowMoreButtons src p = (3, sleep src 2000 q'')"
    if "findShowMoreButton src p" "click src p = Some q"
      "getCurrentTransactionCount src p < getCurrentTransactionCount src (sleep src 2000 q)"
      "findShowMoreButton src (sleep src 2000 q)"
      "click src (sleep src 2000 q) = Some q'"
      "getCurrentTransactionCount src (sleep src 2000 q)
            < getCurrentTransactionCount src (sleep src 2000 q')"
      "findShowMoreButton src (sleep src 2000 q')"
      "click src (sleep src 2000 q') = Some q''"
      "\<not> getCurrentTransactionCount src (sleep src 2000 q')
              < getCurrentTransactionCount src (sleep src 2000 q'')"
  proof -
    have "plain_loop src 0 p = plain_loop src 1 (sleep src 2000 q)"
      using plain_loop_growth [of 0 src p q] that(1-3)
      by (simp add: maxAttempts_def numeral_2_eq_2 numeral_3_eq_3)
    also have "\<dots> = plain_loop src 2 (sleep src 2000 q')"
      using plain_loop_growth [of 1 src _ q'] that(4-6)
      by (simp add: maxAttempts_def numeral_2_eq_2 numeral_3_eq_3)
    also have "\<dots> = (3, sleep src 2000 q'')"
      using plain_loop_stall [OF assms, of 2 _ q''] that(7-9)
      by (simp add: maxAttempts_def numeral_2_eq_2 numeral_3_eq_3)
    finally show ?thesis by (simp add: clickAllShowMoreButtons_def)
  qed
  from b1 b2 ret stall grow three pstall pgrow pthree show ?thesis by blast
qed

lemma simulated_incremental: "incremental (simulated banner lag g)"
  by (auto simp: incremental_def simulated_def)

lemma simulated_loaded:
  "(sleep (simulated banner lag g) 500 ^^ k) (shown, clicks, 0, 0) = (shown, clicks, 0, 0)"
  by (induction k) (simp_all add: simulated_def)

theorem load_loop_stops_at_first_stall_witness:
  "incremental (simulated [''We found 60 results''] 400 2)
   \<and> getRBCResultCount (simulated [''We found 60 results''] 400 2) (10, 0, 0, 0) = Inr 60
   \<and> findShowMoreButton (simulated [''We found 60 results''] 400 2) (10, 0, 0, 0)
   \<and> click (simulated [''We found 60 results''] 400 2) (10, 0, 0, 0) = Some (10, 1, 25, 400)
   \<and> first_growth (simulated [''We found 60 results''] 400 2) 10 (10, 1, 25, 400) = Some 1
   \<and> click (simulated [''We found 60 results''] 400 2) (35, 1, 0, 0) = Some (35, 2, 25, 400)
   \<and> first_growth (simulated [''We found 60 results''] 400 2) 35 (35, 2, 25, 400) = Some 1
   \<and> click (simulated [''We found 60 results''] 400 2) (60, 2, 0, 0) = Some (60, 3, 0, 400)
   \<and> first_growth (simulated [''We found 60 results''] 400 2) 60 (60, 3, 0, 400) = None
   \<and> clickAllShowMoreButtonsWithProgress (simulated [''We found 60 results''] 400 2)
        (10, 0, 0, 0) = Inr (3, 60, 3, 0, 0)
   \<and> clickAllShowMoreButtons (simulated [''We found 60 results''] 400 2) (10, 0, 0, 0)
       = (3, 60, 3, 0, 0)"
proof -
  let ?src = "simulated [''We found 60 results''] 400 2"
  have inc: "incremental ?src" by (rule simulated_incremental)
  have r: "getRBCResultCount ?src (10, 0, 0, 0) = Inr 60" by code_simp
  have c: "findShowMoreButton ?src p" "click ?src (10, 0, 0, 0) = Some (10, 1, 25, 400)"
    "click ?src (35, 1, 0, 0) = Some (35, 2, 25, 400)"
    "click ?src (60, 2, 0, 0) = Some (60, 3, 0, 400)"
    "getCurrentTransactionCount ?src (10, 0, 0, 0) = 10"
    "getCurrentTransactionCount ?src (35, 1, 0, 0) = 35"
    "getCurrentTransactionCount ?src (60, 2, 0, 0) = 60"
    "getCurrentTransactionCount ?src (60, 3, 0, 0) = 60"
    "(sleep ?src 500 ^^ 1) (10, 1, 25, 400) = (35, 1, 0, 0)"
    "(sleep ?src 500 ^^ 1) (35, 2, 25, 400) = (60, 2, 0, 0)"
    "sleep ?src 500 (60, 3, 0, 400) = (60, 3, 0, 0)"
    "sleep ?src 2000 (10, 1, 25, 400) = (35, 1, 0, 0)"
    "sleep ?src 2000 (35, 2, 25, 400) = (60, 2, 0, 0)"
    "sleep ?src 2000 (60, 3, 0, 400) = (60, 3, 0, 0)" for p
    by (simp_all add: simulated_def)
  have still: "(sleep ?src 500 ^^ Suc k) (60, 3, 0, 400) = (60, 3, 0, 0)" for k
    by (simp add: funpow_Suc_right c simulated_loaded del: funpow.simps)
  have g: "first_growth ?src 10 (10, 1, 25, 400) = Some 1"
    "first_growth ?src 35 (35, 2, 25, 400) = Some 1"
    by (simp_all add: first_growth_def upt_rec simulated_def)
  have n: "first_growth ?src 60 (60, 3, 0, 400) = None"
  proof -
    have "getCurrentTransactionCount ?src ((sleep ?src 500 ^^ k) (60, 3, 0, 400)) = 60" for k
      using still [of "k - 1"] by (cases k) (simp_all add: simulated_def)
    then show ?thesis by (simp add: first_growth_def find_None_iff)
  qed
  have last: "(sleep ?src 500 ^^ 30) (60, 3, 0, 400) = (60, 3, 0, 0)"
    using still [of 29] by simp
  from load_loop_stops_at_first_stall
         [OF inc, of "(10, 0, 0, 0)" 3 "(60, 3, 0, 0)" 60 2 "(10, 1, 25, 400)" 1
            "(35, 2, 25, 400)" 1 "(60, 3, 0, 400)"]
    inc r c g n last
  show ?thesis by auto
qed

text \<open>
  The claim as first stated gives both loops the 15-second ceiling.  On the
  incremental source whose rows show 3 s after a click, the first activation does
  produce growth within that ceiling (the sixth poll sees it), and
  \<open>clickAllShowMoreButtonsWithProgress\<close> goes on to make its three activations; but
  \<open>clickAllShowMoreButtons\<close> reads the count after 2 s, finds it unchanged and stops after
  that one activation.
\<close>

theorem plain_loop_short_wait_counterexample:
  "incremental (simulated [''We found 60 results''] 3000 2)
   \<and> click (simulated [''We found 60 results''] 3000 2) (10, 0, 0, 0) = Some (10, 1, 25, 3000)
   \<and> first_growth (simulated [''We found 60 results''] 3000 2) 10 (10, 1, 25, 3000) = Some 6
   \<and> clickAllShowMoreButtonsWithProgress (simulated [''We found 60 results''] 3000 2)
        (10, 0, 0, 0) = Inr (3, 60, 3, 0, 0)
   \<and> clickAllShowMoreButtons (simulated [''We found 60 results''] 3000 2) (10, 0, 0, 0)
       = (1, 10, 1, 25, 1000)"
proof -
  let ?src = "simulated [''We found 60 results''] 3000 2"
  have inc: "incremental ?src" by (rule simulated_incremental)
  have r: "getRBCResultCount ?src (10, 0, 0, 0) = Inr 60" by code_simp
  have c: "findShowMoreButton ?src p" "click ?src (10, 0, 0, 0) = Some (10, 1, 25, 3000)"
    "click ?src (35, 1, 0, 0) = Some (35, 2, 25, 3000)"
    "click ?src (60, 2, 0, 0) = Some (60, 3, 0, 3000)"
    "getCurrentTransactionCount ?src (10, 0, 0, 0) = 10"
    "getCurrentTransactionCount ?src (35, 1, 0, 0) = 35"
    "getCurrentTransactionCount ?src (60, 2, 0, 0) = 60"
    "sleep ?src 2000 (10, 1, 25, 3000) = (10, 1, 25, 1000)"
    "getCurrentTransactionCount ?src (10, 1, 25, 1000) = 10" for p
    by (simp_all add: simulated_def)
  have s6: "(sleep ?src 500 ^^ 6) (shown, clicks, loading, 3000) = (shown + loading, clicks, 0, 0)"
    for shown clicks loading
    by (simp add: eval_nat_numeral simulated_def)
  have g: "first_growth ?src 10 (10, 1, 25, 3000) = Some 6"
    "first_growth ?src 35 (35, 2, 25, 3000) = Some 6"
    by (simp_all add: first_growth_def eval_nat_numeral upt_rec simulated_def)
  have cnt: "getCurrentTransactionCount ?src ((sleep ?src 500 ^^ k) (60, 3, 0, due)) = 60"
    for k due
  proof (induction k arbitrary: due)
    case 0
    show ?case by (simp add: simulated_def)
  next
    case (Suc k)
    have "sleep ?src 500 (60, 3, 0, due) = (60, 3, 0, if due \<le> 500 then 0 else due - 500)"
      by (simp add: simulated_def)
    with Suc [of "if due \<le> 500 then 0 else due - 500"] show ?case
      by (simp add: funpow_Suc_right del: funpow.simps)
  qed
  have n: "first_growth ?src 60 (60, 3, 0, 3000) = None"
    by (simp add: first_growth_def find_None_iff cnt)
  have last: "(sleep ?src 500 ^^ 30) (60, 3, 0, 3000) = (60, 3, 0, 0)"
  proof -
    have "(sleep ?src 500 ^^ 30) (60, 3, 0, 3000)
        = (sleep ?src 500 ^^ 24) ((sleep ?src 500 ^^ 6) (60, 3, 0, 3000))"
      using funpow_add [of 24 6 "sleep ?src 500"] by simp
    then show ?thesis by (simp add: s6 simulated_loaded)
  qed
  have "progress_loop ?src 0 (10, 0, 0, 0) = progress_loop ?src 1 (35, 1, 0, 0)"
    using progress_loop_growth [of 0 ?src "(10, 0, 0, 0)" "(10, 1, 25, 3000)" 6] c g s6
    by (simp add: maxAttempts_def)
  also have "\<dots> = progress_loop ?src 2 (60, 2, 0, 0)"
    using progress_loop_growth [of 1 ?src "(35, 1, 0, 0)" "(35, 2, 25, 3000)" 6] c g s6
    by (simp add: maxAttempts_def numeral_2_eq_2)
  also have "\<dots> = (3, 60, 3, 0, 0)"
    using progress_loop_stall [OF inc, of 2 "(60, 2, 0, 0)" "(60, 3, 0, 3000)"] c n last
    by (simp add: maxAttempts_def numeral_2_eq_2 numeral_3_eq_3)
  finally have w: "clickAllShowMoreButtonsWithProgress ?src (10, 0, 0, 0) = Inr (3, 60, 3, 0, 0)"
    by (simp add: clickAllShowMoreButtonsWithProgress_def r)
  have p: "clickAllShowMoreButtons ?src (10, 0, 0, 0) = (1, 10, 1, 25, 1000)"
    unfolding clickAllShowMoreButtons_def
    by (subst plain_loop.simps) (simp add: simulated_def maxAttempts_def Let_def)
  from inc c g w p show ?thesis by simp
qed

subsection \<open>The busy flag of the PDF processor\<close>

lemma error_message_distinct:
  "e \<noteq> AlreadyInProgress \<Longrightarrow> error_message e \<noteq> error_message AlreadyInProgress"
  by (cases e) simp_all

text \<open>
  Claim C8.  A call of \<open>downloadAndProcessPDF\<close> that finds the busy flag set returns
  the error \<open>PDF processing already in progress\<close> and leaves the processor as it was; a
  call that finds the flag clear ends with the flag clear, whether it succeeds or
  fails.  Seen as events: a call that arrives while the flag is set is answered at once
  with that error, whose message no other error of the processor has; it is not put in
  flight, and the processor and the calls in flight stay as they were.  When the work
  of a call in flight comes back, with a result or with an error, the flag is cleared.
  So, from an idle processor, a second call made while the first is pending is
  rejected, and the first call gets the reply it would have got without the second.
\<close>

theorem second_request_rejected:
  "(isProcessing pr \<longrightarrow>
      downloadAndProcessPDF pr name download extraction = (Inl AlreadyInProgress, pr))
   \<and> (\<not> isProcessing pr \<longrightarrow>
      downloadAndProcessPDF pr name download extraction
        = (fst (settle pr name download extraction), pr\<lparr>isProcessing := False\<rparr>))
   \<and> (isProcessing (proc w) \<longrightarrow>
      step w (Call j name') = w\<lparr>replies := replies w @ [(j, Inl AlreadyInProgress)]\<rparr>)
   \<and> (e \<noteq> AlreadyInProgress \<longrightarrow> error_message e \<noteq> error_message AlreadyInProgress)
   \<and> (map_of (in_flight w) i = Some name \<longrightarrow>
        \<not> isProcessing (proc (step w (Back i download extraction))))
   \<and> replies (run idle [Call 1 name, Call 2 name', Back 1 download extraction])
       = [(2, Inl AlreadyInProgress), (1, fst (settle (proc idle) name download extraction))]
   \<and> replies (run idle [Call 1 name, Back 1 download extraction])
       = [(1, fst (settle (proc idle) name download extraction))]
   \<and> \<not> isProcessing (proc (run idle [Call 1 name, Call 2 name', Back 1 download extraction]))
   \<and> in_flight (run idle [Call 1 name, Call 2 name', Back 1 download extraction]) = []"
proof -
  have whole: "isProcessing pr \<longrightarrow>
      downloadAndProcessPDF pr name download extraction = (Inl AlreadyInProgress, pr)"
    "\<not> isProcessing pr \<longrightarrow>
      downloadAndProcessPDF pr name download extraction
        = (fst (settle pr name download extraction), pr\<lparr>isProcessing := False\<rparr>)"
    by (simp_all add: downloadAndProcessPDF_def enter_def settle_def)
  have busy: "isProcessing (proc w) \<longrightarrow>
      step w (Call j name') = w\<lparr>replies := replies w @ [(j, Inl AlreadyInProgress)]\<rparr>"
    by (simp add: enter_def)
  have cleared: "map_of (in_flight w) i = Some name \<longrightarrow>
        \<not> isProcessing (proc (step w (Back i download extraction)))"
    by (simp add: settle_def)
  have both: "replies (run idle [Call 1 name, Call 2 name', Back 1 download extraction])
       = [(2, Inl AlreadyInProgress), (1, fst (settle (proc idle) name download extraction))]"
    by (simp add: run_def idle_def enter_def settle_def)
  have alone: "replies (run idle [Call 1 name, Back 1 download extraction])
       = [(1, fst (settle (proc idle) name download extraction))]"
    by (simp add: run_def idle_def enter_def settle_def)
  have after: "\<not> isProcessing (proc (run idle [Call 1 name, Call 2 name', Back 1 download extraction]))"
    "in_flight (run idle [Call 1 name, Call 2 name', Back 1 download extraction]) = []"
    by (simp_all add: run_def idle_def enter_def settle_def)
  from whole busy error_message_distinct [of e] cleared both alone after show ?thesis by blast
qed

theorem second_request_rejected_witness:
  "isProcessing (proc (step idle (Call 1 ''a.pdf'')))
   \<and> downloadAndProcessPDF (proc (step idle (Call 1 ''a.pdf''))) ''a.pdf''
         (Inr ''blob:1'') (Inr [()])
       = (Inl AlreadyInProgress, proc (step idle (Call 1 ''a.pdf'')))
   \<and> replies (step (step idle (Call 1 ''a.pdf'')) (Call 2 ''b.pdf''))
       = [(2, Inl AlreadyInProgress) :: nat \<times> (pdf_error + unit pdf_result)]
   \<and> in_flight (step (step idle (Call 1 ''a.pdf'')) (Call 2 ''b.pdf'')) = [(1, ''a.pdf'')]
   \<and> error_message (ProcessingFailed ''already in progress'')
       \<noteq> error_message AlreadyInProgress
   \<and> \<not> isProcessing (proc (step (step idle (Call 1 ''a.pdf''))
          (Back 1 (Inl (DownloadFailed ''HTTP 404: Not Found'')) (Inr ([] :: unit list)))))
   \<and> replies (run idle [Call 1 ''a.pdf'', Call 2 ''b.pdf'',
                         Back 1 (Inr ''blob:1'') (Inr [()])])
       = [(2, Inl AlreadyInProgress),
          (1, Inr \<lparr>success = True, transactions = [()], filename = ''a.pdf''\<rparr>)]"
proof -
  let ?w = "step idle (Call 1 ''a.pdf'') :: unit world"
  have b: "isProcessing (proc ?w)" "map_of (in_flight ?w) 1 = Some ''a.pdf''"
    "in_flight ?w = [(1, ''a.pdf'')]" "replies ?w = []"
    by (simp_all add: idle_def enter_def)
  have s: "fst (settle (proc idle) ''a.pdf'' (Inr ''blob:1'') (Inr [()]))
       = Inr \<lparr>success = True, transactions = [()], filename = ''a.pdf''\<rparr>"
    by (simp add: settle_def)
  from second_request_rejected
         [of "proc ?w" "''a.pdf''" "Inl (DownloadFailed ''HTTP 404: Not Found'')" "Inr []"
             ?w 2 "''b.pdf''" "ProcessingFailed ''already in progress''" 1]
       second_request_rejected
         [of "proc ?w" "''a.pdf''" "Inr ''blob:1''" "Inr [()]"
             ?w 2 "''b.pdf''" "ProcessingFailed ''already in progress''" 1]
       b s
  show ?thesis by (simp add: run_def idle_def enter_def settle_def downloadAndProcessPDF_def)
qed

subsection \<open>The popup's serializer\<close>

text \<open>
  Claim C9.  The popup's own serializer does not write what csvExporter.js writes.  On
  the record parsed from a chequing row, csvExporter.js writes labelled headers for the
  columns that hold data, the date in quotes and the amount without its comma; the
  popup writes every property name as it is, in the order of the object, the date
  bare, the amount in quotes, and the empty balance and reference columns as well.
\<close>

theorem popup_convertToCSV_differs:
  "convertToCSV [parseRBCTransactionRow debit_row]
     = ''Date,Account Type,Description,Vendor/Payee,Amount'' @ [newline]
       @ [dquote] @ ''21/10/2025'' @ [dquote]
       @ '',debit,Contactless Interac purchase - 5619,TIM HORTONS,$1005.00''
   \<and> popup_convertToCSV [parseRBCTransactionRow debit_row]
     = ''date,description,vendor,amount,type,balance,reference,accountType'' @ [newline]
       @ ''21/10/2025,Contactless Interac purchase - 5619,TIM HORTONS,''
       @ [dquote] @ ''$1,005.00'' @ [dquote] @ '',Interac,,,debit''
   \<and> popup_convertToCSV [parseRBCTransactionRow debit_row]
     \<noteq> convertToCSV [parseRBCTransactionRow debit_row]"
proof -
  have a: "convertToCSV [parseRBCTransactionRow debit_row]
     = ''Date,Account Type,Description,Vendor/Payee,Amount'' @ [newline]
       @ [dquote] @ ''21/10/2025'' @ [dquote]
       @ '',debit,Contactless Interac purchase - 5619,TIM HORTONS,$1005.00''"
    unfolding parse_debit_row by code_simp
  have b: "popup_convertToCSV [parseRBCTransactionRow debit_row]
     = ''date,description,vendor,amount,type,balance,reference,accountType'' @ [newline]
       @ ''21/10/2025,Contactless Interac purchase - 5619,TIM HORTONS,''
       @ [dquote] @ ''$1,005.00'' @ [dquote] @ '',Interac,,,debit''"
    unfolding parse_debit_row by code_simp
  show ?thesis unfolding a b by simp
qed

subsection \<open>Parenthesised amounts\<close>

lemma paren_shape:
  assumes "re_test parenAmountPattern t"
  shows "\<exists>cs. t = CHR ''('' # cs"
  using ms_Lit_first [OF re_test_Bol [OF assms [unfolded parenAmountPattern_def]]] by simp

lemma dollar_paren_shape:
  assumes "re_test dollarParenAmountPattern t"
  shows "\<exists>cs. t = CHR ''$'' # CHR ''('' # cs"
proof -
  let ?st = "\<lparr>behind = [], ahead = t, caps = []\<rparr>"
  let ?r = "Seq (Ch (Lit CHR ''('')) (seqs [amount_body, Ch (Lit CHR '')''), Eol])"
  have ne: "ms (Seq (Ch (Lit CHR ''$'')) ?r) ?st \<noteq> []"
    using re_test_Bol [OF assms [unfolded dollarParenAmountPattern_def]] .
  then obtain cs where t: "t = CHR ''$'' # cs"
    using ms_Lit_first [OF ne] by auto
  with ne have "ms ?r \<lparr>behind = [CHR ''$''], ahead = cs, caps = []\<rparr> \<noteq> []"
    by simp
  from ms_Lit_first [OF this] t show ?thesis by simp
qed

lemma parseFloat_paren:
  assumes "\<forall>c \<in> set w. is_ws c"
  shows "parseFloat (w @ CHR ''('' # cs) = None"
proof -
  have "dropWhile is_ws (w @ CHR ''('' # cs) = CHR ''('' # cs"
    using assms by (simp add: dropWhile_append3 is_ws_def dropWhile_append2)
  then show ?thesis
    by (simp add: parseFloat_def startsWith_def is_digit_def)
qed

lemma clean_ws:
  "\<forall>c \<in> set w. is_ws c \<Longrightarrow> filter (\<lambda>c. c \<noteq> CHR '','' \<and> c \<noteq> CHR ''$'') w = w"
  by (induction w) (auto simp: is_ws_def)

lemma normalizeAmount_paren:
  assumes "trim s = CHR ''('' # cs \<or> trim s = CHR ''$'' # CHR ''('' # cs"
  shows "normalizeAmount toFixed2 s = s"
proof -
  obtain w where w: "dropWhile is_ws s = trim s @ w"
    using dropWhile_trim by blast
  define l where "l = takeWhile is_ws s"
  have s: "s = l @ trim s @ w" and l: "\<forall>c \<in> set l. is_ws c"
    using w takeWhile_dropWhile_id [of is_ws s] by (auto simp: l_def dest: set_takeWhileD)
  let ?f = "filter (\<lambda>c. c \<noteq> CHR '','' \<and> c \<noteq> CHR ''$'')"
  have "\<exists>r. ?f s = l @ CHR ''('' # r"
  proof -
    have "?f s = l @ ?f (trim s) @ ?f w"
      using clean_ws [OF l] by (subst s) simp
    with assms show ?thesis by auto
  qed
  then obtain r where "?f s = l @ CHR ''('' # r" ..
  with parseFloat_paren [OF l] show ?thesis
    by (simp add: normalizeAmount_def)
qed

lemma signed_two_decimal_first:
  assumes "signed_two_decimal s"
  shows "\<exists>c cs. s = c # cs \<and> (c = CHR ''-'' \<or> is_digit c)"
proof (cases s)
  case Nil
  with assms show ?thesis by (simp add: signed_two_decimal_def startsWith_def)
next
  case (Cons c cs)
  show ?thesis
  proof (cases "c = CHR ''-'' \<or> is_digit c")
    case True
    with Cons show ?thesis by simp
  next
    case False
    with Cons assms show ?thesis
      by (simp add: signed_two_decimal_def startsWith_def)
  qed
qed

text \<open>
  Claim C10.  Every string that \<open>isAmount\<close> accepts through one of its two parenthesised
  patterns, \<open>(123.45)\<close> or \<open>$(123.45)\<close>, is classified as an amount, and \<open>normalizeAmount\<close>
  returns it unchanged: after the commas and dollar signs are removed the text begins
  with a parenthesis, \<open>parseFloat\<close> reads no number, and the \<open>NaN\<close> branch returns the
  argument.  The result is therefore never a signed two-decimal string, whatever
  \<open>toFixed\<close> would print.
\<close>

theorem normalizeAmount_parenthesised_unchanged:
  assumes "re_test parenAmountPattern (trim s) \<or> re_test dollarParenAmountPattern (trim s)"
  shows "isAmount s \<and> normalizeAmount toFixed2 s = s
         \<and> \<not> signed_two_decimal (normalizeAmount toFixed2 s)"
proof -
  from assms obtain cs where
    shape: "trim s = CHR ''('' # cs \<or> trim s = CHR ''$'' # CHR ''('' # cs"
    using paren_shape dollar_paren_shape by blast
  then have ne: "s \<noteq> []" by (auto simp: trim_def)
  have amt: "isAmount s"
    using assms ne by (auto simp: isAmount_def amountPatterns_def)
  have same: "normalizeAmount toFixed2 s = s"
    using shape by (rule normalizeAmount_paren)
  have "\<not> signed_two_decimal s"
  proof
    assume "signed_two_decimal s"
    then obtain c r where c: "s = c # r" "c = CHR ''-'' \<or> is_digit c"
      using signed_two_decimal_first by blast
    from shape obtain a r' where "s = a # r'" "is_ws a \<or> a = CHR ''('' \<or> a = CHR ''$''"
      using trim_first by blast
    with c show False by (auto simp: is_ws_def is_digit_def)
  qed
  with amt same show ?thesis by simp
qed

theorem normalizeAmount_parenthesised_unchanged_witness:
  "re_test parenAmountPattern (trim ''(123.45)'')
   \<and> isAmount ''(123.45)''
   \<and> normalizeAmount (\<lambda>num. num) ''(123.45)'' = ''(123.45)''
   \<and> re_test dollarParenAmountPattern (trim ''$(123.45)'')
   \<and> isAmount ''$(123.45)''
   \<and> normalizeAmount (\<lambda>num. num) ''$(123.45)'' = ''$(123.45)''"
proof -
  have a: "re_test parenAmountPattern (trim ''(123.45)'')" by code_simp
  have b: "re_test dollarParenAmountPattern (trim ''$(123.45)'')" by code_simp
  from normalizeAmount_parenthesised_unchanged [of "''(123.45)''" "\<lambda>num. num"]
    normalizeAmount_parenthesised_unchanged [of "''$(123.45)''" "\<lambda>num. num"] a b
  show ?thesis by blast
qed

end
